theory Spec2Isabelle
  imports Complex_Main "HOL-Library.Multiset"
begin

section \<open>Numbers and values of the source language\<close>

text \<open>
  The service computes on JavaScript numbers: IEEE 754 double-precision values. A number is
  modelled as \<open>Fin r\<close> for the real value \<open>r\<close> of a finite double, or one of the three
  non-finite values; the two zeros are identified. The result of an addition, subtraction,
  multiplication or division of finite numbers, and the value of a decimal literal, is the
  exact result rounded to the nearest double, ties to the even significand (\<open>toDouble\<close>).
  Arithmetic and comparisons on the non-finite values follow IEEE 754 as JavaScript exposes
  it: \<open>NaN\<close> is absorbing, every comparison with \<open>NaN\<close> is false.
\<close>

datatype jsnum = Fin real | PInf | NInf | NaN

text \<open>
  Rounding to double precision. For a positive real \<open>a\<close> with \<open>2 ^ e \<le> a < 2 ^ (e + 1)\<close> the
  doubles around \<open>a\<close> are the multiples of \<open>2 ^ (e - 52)\<close>, or of \<open>2 ^ (- 1074)\<close> below the
  normal range; the nearest multiple is taken, the even one of two that are equally near,
  and a result of \<open>2 ^ 1024\<close> or more is infinite.
\<close>

text \<open>The nearest integer, the even one of two.\<close>

definition roundHalfEven :: "real \<Rightarrow> int" where
  "roundHalfEven m =
     (let n = \<lfloor>m\<rfloor>; r = m - of_int n
      in if r < 1 / 2 then n else if 1 / 2 < r then n + 1 else if even n then n else n + 1)"

text \<open>The number of binary digits of a natural number.\<close>

function bitLength :: "nat \<Rightarrow> nat" where
  "bitLength n = (if n = 0 then 0 else Suc (bitLength (n div 2)))"
  by pat_completeness auto
termination
  by (relation "measure id") auto

text \<open>The exponent \<open>e\<close> with \<open>2 ^ e \<le> a < 2 ^ (e + 1)\<close>, for a positive \<open>a\<close>.\<close>

definition exponentOf :: "real \<Rightarrow> int" where
  "exponentOf a =
     (if 1 \<le> a then int (bitLength (nat \<lfloor>a\<rfloor>)) - 1
      else - int (bitLength (nat \<lceil>1 / a\<rceil> - 1)))"

definition pow2 :: "int \<Rightarrow> real" where
  "pow2 e = (if 0 \<le> e then 2 ^ nat e else 1 / 2 ^ nat (- e))"

definition toDouble :: "real \<Rightarrow> jsnum" where
  "toDouble x =
     (if x = 0 then Fin 0
      else
        (let a = \<bar>x\<bar>;
             q = max (exponentOf a) (- 1022) - 52;
             n = roundHalfEven (a / pow2 q)
         in if 971 < q \<or> (q = 971 \<and> 9007199254740992 \<le> n)
            then (if 0 < x then PInf else NInf)
            else Fin (if 0 < x then of_int n * pow2 q else - (of_int n * pow2 q))))"

fun jlt :: "jsnum \<Rightarrow> jsnum \<Rightarrow> bool" where
  "jlt (Fin a) (Fin b) = (a < b)"
| "jlt NaN _ = False"
| "jlt _ NaN = False"
| "jlt NInf NInf = False"
| "jlt NInf _ = True"
| "jlt _ NInf = False"
| "jlt PInf _ = False"
| "jlt _ PInf = True"

definition jle :: "jsnum \<Rightarrow> jsnum \<Rightarrow> bool" where
  "jle a b = (jlt a b \<or> (a = b \<and> a \<noteq> NaN))"

definition jgt :: "jsnum \<Rightarrow> jsnum \<Rightarrow> bool" where
  "jgt a b = jlt b a"

text \<open>\<open>Math.min\<close> and \<open>Math.max\<close> of two numbers.\<close>

definition jmin2 :: "jsnum \<Rightarrow> jsnum \<Rightarrow> jsnum" where
  "jmin2 a b = (if a = NaN \<or> b = NaN then NaN else if jlt b a then b else a)"

definition jmax2 :: "jsnum \<Rightarrow> jsnum \<Rightarrow> jsnum" where
  "jmax2 a b = (if a = NaN \<or> b = NaN then NaN else if jlt a b then b else a)"

definition jmin4 :: "jsnum \<Rightarrow> jsnum \<Rightarrow> jsnum \<Rightarrow> jsnum \<Rightarrow> jsnum" where
  "jmin4 a b c d = jmin2 (jmin2 (jmin2 a b) c) d"

definition jmax4 :: "jsnum \<Rightarrow> jsnum \<Rightarrow> jsnum \<Rightarrow> jsnum \<Rightarrow> jsnum" where
  "jmax4 a b c d = jmax2 (jmax2 (jmax2 a b) c) d"

fun jadd :: "jsnum \<Rightarrow> jsnum \<Rightarrow> jsnum" where
  "jadd (Fin a) (Fin b) = toDouble (a + b)"
| "jadd NaN _ = NaN"
| "jadd _ NaN = NaN"
| "jadd PInf NInf = NaN"
| "jadd NInf PInf = NaN"
| "jadd PInf _ = PInf"
| "jadd NInf _ = NInf"
| "jadd _ PInf = PInf"
| "jadd _ NInf = NInf"

fun jneg :: "jsnum \<Rightarrow> jsnum" where
  "jneg (Fin a) = Fin (- a)"
| "jneg PInf = NInf"
| "jneg NInf = PInf"
| "jneg NaN = NaN"

definition jsub :: "jsnum \<Rightarrow> jsnum \<Rightarrow> jsnum" where
  "jsub a b = jadd a (jneg b)"

fun jabs :: "jsnum \<Rightarrow> jsnum" where
  "jabs (Fin a) = Fin \<bar>a\<bar>"
| "jabs PInf = PInf"
| "jabs NInf = PInf"
| "jabs NaN = NaN"

definition jinf :: "bool \<Rightarrow> jsnum" where
  "jinf positive = (if positive then PInf else NInf)"

fun jmul :: "jsnum \<Rightarrow> jsnum \<Rightarrow> jsnum" where
  "jmul (Fin a) (Fin b) = toDouble (a * b)"
| "jmul NaN _ = NaN"
| "jmul _ NaN = NaN"
| "jmul (Fin a) PInf = (if a = 0 then NaN else jinf (0 < a))"
| "jmul (Fin a) NInf = (if a = 0 then NaN else jinf (a < 0))"
| "jmul PInf (Fin b) = (if b = 0 then NaN else jinf (0 < b))"
| "jmul NInf (Fin b) = (if b = 0 then NaN else jinf (b < 0))"
| "jmul PInf PInf = PInf"
| "jmul NInf NInf = PInf"
| "jmul PInf NInf = NInf"
| "jmul NInf PInf = NInf"

text \<open>
  Division. A zero divisor is taken as the positive zero: the divisors of the code below are
  the literal 2, or a page dimension that the code has tested to be truthy, or the target
  page's own dimension dividing itself.
\<close>

fun jdiv :: "jsnum \<Rightarrow> jsnum \<Rightarrow> jsnum" where
  "jdiv (Fin a) (Fin b) =
     (if b = 0 then (if a = 0 then NaN else jinf (0 < a)) else toDouble (a / b))"
| "jdiv NaN _ = NaN"
| "jdiv _ NaN = NaN"
| "jdiv (Fin a) PInf = Fin 0"
| "jdiv (Fin a) NInf = Fin 0"
| "jdiv PInf (Fin b) = jinf (0 \<le> b)"
| "jdiv NInf (Fin b) = jinf (b < 0)"
| "jdiv PInf PInf = NaN"
| "jdiv NInf NInf = NaN"
| "jdiv PInf NInf = NaN"
| "jdiv NInf PInf = NaN"

text \<open>Truthiness of a number: \<open>0\<close> and \<open>NaN\<close> are falsy.\<close>

definition truthy :: "jsnum \<Rightarrow> bool" where
  "truthy a = (a \<noteq> Fin 0 \<and> a \<noteq> NaN)"

text \<open>
  An entry of a bounding-box array. \<open>Number n\<close> stands for any value that converts to the
  number \<open>n\<close>; \<open>Unconvertible\<close> stands for a value whose conversion to a number throws a
  \<open>TypeError\<close> (a symbol, a big integer). Reading past the end of an array gives
  \<open>undefined\<close>, which converts to \<open>NaN\<close>.
\<close>

datatype jsval = Number jsnum | Unconvertible

datatype error = TypeError | RangeError | Error string

definition entry :: "jsval list \<Rightarrow> nat \<Rightarrow> jsval" where
  "entry bb i = (if i < length bb then bb ! i else Number NaN)"

fun toNumber :: "jsval \<Rightarrow> error + jsnum" where
  "toNumber (Number n) = Inr n"
| "toNumber Unconvertible = Inl TypeError"

text \<open>
  \<open>Math.min(a, b)\<close> and \<open>Math.max(a, b)\<close> convert their arguments from left to right and
  throw where a conversion throws.
\<close>

definition Math_min2 :: "jsval \<Rightarrow> jsval \<Rightarrow> error + jsnum" where
  "Math_min2 a b =
     (case toNumber a of Inl e \<Rightarrow> Inl e | Inr x \<Rightarrow>
      case toNumber b of Inl e \<Rightarrow> Inl e | Inr y \<Rightarrow> Inr (jmin2 x y))"

definition Math_max2 :: "jsval \<Rightarrow> jsval \<Rightarrow> error + jsnum" where
  "Math_max2 a b =
     (case toNumber a of Inl e \<Rightarrow> Inl e | Inr x \<Rightarrow>
      case toNumber b of Inl e \<Rightarrow> Inl e | Inr y \<Rightarrow> Inr (jmax2 x y))"

definition Math_min4 :: "jsval \<Rightarrow> jsval \<Rightarrow> jsval \<Rightarrow> jsval \<Rightarrow> error + jsnum" where
  "Math_min4 a b c d =
     (case toNumber a of Inl e \<Rightarrow> Inl e | Inr x \<Rightarrow>
      case toNumber b of Inl e \<Rightarrow> Inl e | Inr y \<Rightarrow>
      case toNumber c of Inl e \<Rightarrow> Inl e | Inr z \<Rightarrow>
      case toNumber d of Inl e \<Rightarrow> Inl e | Inr u \<Rightarrow> Inr (jmin4 x y z u))"

definition Math_max4 :: "jsval \<Rightarrow> jsval \<Rightarrow> jsval \<Rightarrow> jsval \<Rightarrow> error + jsnum" where
  "Math_max4 a b c d =
     (case toNumber a of Inl e \<Rightarrow> Inl e | Inr x \<Rightarrow>
      case toNumber b of Inl e \<Rightarrow> Inl e | Inr y \<Rightarrow>
      case toNumber c of Inl e \<Rightarrow> Inl e | Inr z \<Rightarrow>
      case toNumber d of Inl e \<Rightarrow> Inl e | Inr u \<Rightarrow> Inr (jmax4 x y z u))"

section \<open>Configuration\<close>

text \<open>
  The numeric settings. A decimal literal denotes the double nearest to it; a small integer
  is a double itself.
\<close>

definition WORD_SPACING_THRESHOLD :: jsnum where "WORD_SPACING_THRESHOLD = toDouble (5 / 10)"
definition WIDE_SPACING_THRESHOLD :: jsnum where "WIDE_SPACING_THRESHOLD = toDouble (12 / 10)"
definition LINE_HEIGHT_TOLERANCE :: jsnum where "LINE_HEIGHT_TOLERANCE = toDouble (7 / 10)"
definition PARAGRAPH_SPACING_THRESHOLD :: jsnum where "PARAGRAPH_SPACING_THRESHOLD = Fin 2"
definition MIN_WORD_GAP_PIXELS :: jsnum where "MIN_WORD_GAP_PIXELS = Fin 3"
definition TIMEOUT_SECONDS :: nat where "TIMEOUT_SECONDS = 30"
definition MAX_FILE_SIZE_BYTES :: nat where "MAX_FILE_SIZE_BYTES = 20 * 1024 * 1024"

section \<open>Recognised words, lines and pages\<close>

record word =
  wtext :: string
  boundingBox :: "jsval list option"
  confidence :: "real option"

record line =
  words :: "word list option"
  lineBox :: "jsval list option"

record page =
  lines :: "line list option"
  width :: "jsnum option"
  height :: "jsnum option"

abbreviation newline :: char where "newline \<equiv> CHR 0x0A"
abbreviation tab :: char where "tab \<equiv> CHR 0x09"

section \<open>Spacing between two words\<close>

text \<open>
  The body of the \<open>try\<close> block of \<open>calculateSpacingBetweenWords\<close>: the extents of the two
  boxes, the gaps, and the decision. It throws where \<open>Math.min\<close> or \<open>Math.max\<close> throws.
\<close>

definition wordSpacingBody :: "jsval list \<Rightarrow> jsval list \<Rightarrow> error + string" where
  "wordSpacingBody word1_bbox word2_bbox =
     (case Math_min2 (entry word1_bbox 0) (entry word1_bbox 6) of Inl e \<Rightarrow> Inl e | Inr word1_left \<Rightarrow>
      case Math_max2 (entry word1_bbox 2) (entry word1_bbox 4) of Inl e \<Rightarrow> Inl e | Inr word1_right \<Rightarrow>
      case Math_min2 (entry word1_bbox 1) (entry word1_bbox 3) of Inl e \<Rightarrow> Inl e | Inr word1_top \<Rightarrow>
      case Math_max2 (entry word1_bbox 7) (entry word1_bbox 5) of Inl e \<Rightarrow> Inl e | Inr word1_bottom \<Rightarrow>
      case Math_min2 (entry word2_bbox 0) (entry word2_bbox 6) of Inl e \<Rightarrow> Inl e | Inr word2_left \<Rightarrow>
      case Math_max2 (entry word2_bbox 2) (entry word2_bbox 4) of Inl e \<Rightarrow> Inl e | Inr word2_right \<Rightarrow>
      case Math_min2 (entry word2_bbox 1) (entry word2_bbox 3) of Inl e \<Rightarrow> Inl e | Inr word2_top \<Rightarrow>
      case Math_max2 (entry word2_bbox 7) (entry word2_bbox 5) of Inl e \<Rightarrow> Inl e | Inr word2_bottom \<Rightarrow>
      (let word1_height = jsub word1_bottom word1_top;
           word1_centerY = jdiv (jadd word1_top word1_bottom) (Fin 2);
           word2_height = jsub word2_bottom word2_top;
           word2_centerY = jdiv (jadd word2_top word2_bottom) (Fin 2);
           horizontalGap = jsub word2_left word1_right;
           verticalGap = jsub word2_top word1_bottom;
           verticalCenterDistance = jabs (jsub word2_centerY word1_centerY);
           averageHeight = jdiv (jadd word1_height word2_height) (Fin 2);
           safeHeight = (if jgt averageHeight (Fin 0) then averageHeight else Fin 12);
           sameLine = jlt verticalCenterDistance (jmul safeHeight LINE_HEIGHT_TOLERANCE)
       in Inr
         (if sameLine then
            (if jlt horizontalGap (Fin 0) then []
             else if jle horizontalGap MIN_WORD_GAP_PIXELS then []
             else if jle horizontalGap (jmul safeHeight WORD_SPACING_THRESHOLD) then '' ''
             else if jle horizontalGap (jmul safeHeight WIDE_SPACING_THRESHOLD) then ''  ''
             else if jle horizontalGap (jmul safeHeight (Fin 2)) then ''    ''
             else [tab])
          else
            (let lineGap = jabs verticalGap
             in if jle lineGap (jmul safeHeight (toDouble (3 / 10))) then '' ''
                else if jle lineGap (jmul safeHeight (toDouble (12 / 10))) then [newline]
                else if jle lineGap (jmul safeHeight PARAGRAPH_SPACING_THRESHOLD)
                  then [newline, newline]
                else [newline, newline, newline]))))"

text \<open>
  \<open>calculateSpacingBetweenWords\<close>: the guard on the two bounding boxes, then the body inside
  \<open>try\<close>; the \<open>catch\<close> clause returns one space.
\<close>

definition calculateSpacingBetweenWords :: "word \<Rightarrow> word \<Rightarrow> string" where
  "calculateSpacingBetweenWords word1 word2 =
     (case boundingBox word1 of None \<Rightarrow> '' '' | Some word1_bbox \<Rightarrow>
      case boundingBox word2 of None \<Rightarrow> '' '' | Some word2_bbox \<Rightarrow>
        if length word1_bbox < 8 \<or> length word2_bbox < 8 then '' ''
        else (case wordSpacingBody word1_bbox word2_bbox of
                Inl e \<Rightarrow> '' ''
              | Inr spacing \<Rightarrow> spacing))"

section \<open>Spacing between two lines\<close>

text \<open>\<open>calculateSpacingBetweenLines\<close> has no \<open>try\<close> block: what its arithmetic throws, it throws.\<close>

definition calculateSpacingBetweenLines :: "line \<Rightarrow> line \<Rightarrow> error + string" where
  "calculateSpacingBetweenLines line1 line2 =
     (case lineBox line1 of None \<Rightarrow> Inr [newline] | Some b1 \<Rightarrow>
      case lineBox line2 of None \<Rightarrow> Inr [newline] | Some b2 \<Rightarrow>
      case Math_max4 (entry b1 1) (entry b1 3) (entry b1 5) (entry b1 7) of
        Inl e \<Rightarrow> Inl e | Inr line1Bottom \<Rightarrow>
      case Math_min4 (entry b1 1) (entry b1 3) (entry b1 5) (entry b1 7) of
        Inl e \<Rightarrow> Inl e | Inr line1Top \<Rightarrow>
      case Math_min4 (entry b2 1) (entry b2 3) (entry b2 5) (entry b2 7) of
        Inl e \<Rightarrow> Inl e | Inr line2Top \<Rightarrow>
      (let line1Height = jsub line1Bottom line1Top;
           verticalGap = jsub line2Top line1Bottom
       in Inr
         (if jle verticalGap (jmul line1Height (toDouble (3 / 10))) then [newline]
          else if jle verticalGap (jmul line1Height (Fin 1)) then [newline]
          else if jle verticalGap (jmul line1Height (Fin 2)) then [newline, newline]
          else [newline, newline, newline])))"

text \<open>
  The geometry of two boxes with finite coordinates, as the two functions above compute it,
  used to state what they decide. The extents are minima and maxima of coordinates, which
  are exact; every difference, sum, quotient and product is rounded.
\<close>

definition finiteBox :: "real list \<Rightarrow> jsval list" where
  "finiteBox xs = map (\<lambda>x. Number (Fin x)) xs"

definition wordLeft :: "real list \<Rightarrow> real" where "wordLeft b = min (b ! 0) (b ! 6)"
definition wordRight :: "real list \<Rightarrow> real" where "wordRight b = max (b ! 2) (b ! 4)"
definition wordTop :: "real list \<Rightarrow> real" where "wordTop b = min (b ! 1) (b ! 3)"
definition wordBottom :: "real list \<Rightarrow> real" where "wordBottom b = max (b ! 7) (b ! 5)"

definition wordHeight :: "real list \<Rightarrow> jsnum" where
  "wordHeight b = jsub (Fin (wordBottom b)) (Fin (wordTop b))"

definition wordCenterY :: "real list \<Rightarrow> jsnum" where
  "wordCenterY b = jdiv (jadd (Fin (wordTop b)) (Fin (wordBottom b))) (Fin 2)"

definition horizontalGap :: "real list \<Rightarrow> real list \<Rightarrow> jsnum" where
  "horizontalGap b1 b2 = jsub (Fin (wordLeft b2)) (Fin (wordRight b1))"

definition verticalGap :: "real list \<Rightarrow> real list \<Rightarrow> jsnum" where
  "verticalGap b1 b2 = jsub (Fin (wordTop b2)) (Fin (wordBottom b1))"

definition averageHeight :: "real list \<Rightarrow> real list \<Rightarrow> jsnum" where
  "averageHeight b1 b2 = jdiv (jadd (wordHeight b1) (wordHeight b2)) (Fin 2)"

definition centerDistance :: "real list \<Rightarrow> real list \<Rightarrow> jsnum" where
  "centerDistance b1 b2 = jabs (jsub (wordCenterY b2) (wordCenterY b1))"

definition safeHeight :: "real list \<Rightarrow> real list \<Rightarrow> jsnum" where
  "safeHeight b1 b2 =
     (if jgt (averageHeight b1 b2) (Fin 0) then averageHeight b1 b2 else Fin 12)"

definition sameLine :: "real list \<Rightarrow> real list \<Rightarrow> bool" where
  "sameLine b1 b2 = jlt (centerDistance b1 b2) (jmul (safeHeight b1 b2) LINE_HEIGHT_TOLERANCE)"

text \<open>The extents of the box of a line, and the height and the gap that the line classifier uses.\<close>

definition lineTop :: "real list \<Rightarrow> real" where
  "lineTop b = min (min (min (b ! 1) (b ! 3)) (b ! 5)) (b ! 7)"

definition lineBottom :: "real list \<Rightarrow> real" where
  "lineBottom b = max (max (max (b ! 1) (b ! 3)) (b ! 5)) (b ! 7)"

definition lineHeight :: "real list \<Rightarrow> jsnum" where
  "lineHeight b = jsub (Fin (lineBottom b)) (Fin (lineTop b))"

definition lineGap :: "real list \<Rightarrow> real list \<Rightarrow> jsnum" where
  "lineGap b1 b2 = jsub (Fin (lineTop b2)) (Fin (lineBottom b1))"

section \<open>Strings and the regular expressions of the service\<close>

text \<open>
  A string is a list of characters with codes 0 to 255. The character classes are those of
  the regular expressions of the source on that range: \<open>[a-z]\<close>, \<open>[A-Z]\<close>, \<open>\d\<close>, \<open>\w\<close>, and
  \<open>\s\<close>, which holds the tab, the four line and page separators, the space and the
  no-break space. A pattern with the flag \<open>i\<close> compares letters after folding A to Z onto
  a to z; no other character of the range folds onto an ASCII letter.
\<close>

definition code :: "char \<Rightarrow> nat" where
  "code c = of_char c"

definition isLower :: "char \<Rightarrow> bool" where
  "isLower c = (97 \<le> code c \<and> code c \<le> 122)"

definition isUpper :: "char \<Rightarrow> bool" where
  "isUpper c = (65 \<le> code c \<and> code c \<le> 90)"

definition isDigit :: "char \<Rightarrow> bool" where
  "isDigit c = (48 \<le> code c \<and> code c \<le> 57)"

definition isLetter :: "char \<Rightarrow> bool" where
  "isLetter c = (isLower c \<or> isUpper c)"

definition isWordChar :: "char \<Rightarrow> bool" where
  "isWordChar c = (isLetter c \<or> isDigit c \<or> c = CHR ''_'')"

definition isSpace :: "char \<Rightarrow> bool" where
  "isSpace c = (c = tab \<or> c = newline \<or> c = CHR 0x0B \<or> c = CHR 0x0C \<or> c = CHR 0x0D
     \<or> c = CHR '' '' \<or> c = CHR 0xA0)"

definition isLineTerminator :: "char \<Rightarrow> bool" where
  "isLineTerminator c = (c = newline \<or> c = CHR 0x0D)"

definition lowerCase :: "char \<Rightarrow> char" where
  "lowerCase c = (if isUpper c then char_of (code c + 32) else c)"

text \<open>\<open>s.includes(" ")\<close> and \<open>s.trim()\<close>.\<close>

definition includesSpace :: "string \<Rightarrow> bool" where
  "includesSpace s = (CHR '' '' \<in> set s)"

definition trim :: "string \<Rightarrow> string" where
  "trim s = rev (dropWhile isSpace (rev (dropWhile isSpace s)))"

text \<open>
  A replacement with the flag \<open>g\<close> scans from the left; where the pattern matches, the match is
  replaced and the scan goes on behind it, elsewhere one character is copied.

  \<open>replace(/C+/g, " ")\<close> for a character class \<open>C\<close>.
\<close>

function collapseRuns :: "(char \<Rightarrow> bool) \<Rightarrow> string \<Rightarrow> string" where
  "collapseRuns p [] = []"
| "collapseRuns p (c # cs) =
     (if p c then CHR '' '' # collapseRuns p (dropWhile p cs) else c # collapseRuns p cs)"
  by pat_completeness auto
termination
  by (relation "measure (\<lambda>(p, s). length s)")
     (auto simp add: le_imp_less_Suc length_dropWhile_le)

text \<open>\<open>replace(/\n{4,}/g, "\n\n\n")\<close>.\<close>

function capNewlines :: "string \<Rightarrow> string" where
  "capNewlines [] = []"
| "capNewlines (c # cs) =
     (if c = newline \<and> 4 \<le> length (takeWhile (\<lambda>x. x = newline) (c # cs))
      then [newline, newline, newline] @ capNewlines (dropWhile (\<lambda>x. x = newline) cs)
      else c # capNewlines cs)"
  by pat_completeness auto
termination
  by (relation "measure length") (auto simp add: le_imp_less_Suc length_dropWhile_le)

text \<open>\<open>replace(/ +\n/g, "\n")\<close>: a run of spaces in front of a newline goes.\<close>

function stripSpacesBeforeNewline :: "string \<Rightarrow> string" where
  "stripSpacesBeforeNewline [] = []"
| "stripSpacesBeforeNewline (c # cs) =
     (if c = CHR '' '' then
        (case dropWhile (\<lambda>x. x = CHR '' '') cs of
           d # ds \<Rightarrow> if d = newline then newline # stripSpacesBeforeNewline ds
                     else c # stripSpacesBeforeNewline cs
         | [] \<Rightarrow> c # stripSpacesBeforeNewline cs)
      else c # stripSpacesBeforeNewline cs)"
  by pat_completeness auto
termination
proof (relation "measure length")
  show "wf (measure length)" by simp
next
  fix c :: char and cs d ds
  assume "dropWhile (\<lambda>x. x = CHR '' '') cs = d # ds"
  then have "length (d # ds) \<le> length cs"
    using length_dropWhile_le [of "\<lambda>x. x = CHR '' ''" cs] by simp
  then show "(ds, c # cs) \<in> measure length" by simp
qed auto

text \<open>\<open>replace(/\n +/g, "\n")\<close>: a run of spaces behind a newline goes.\<close>

function stripSpacesAfterNewline :: "string \<Rightarrow> string" where
  "stripSpacesAfterNewline [] = []"
| "stripSpacesAfterNewline (c # cs) =
     (if c = newline \<and> (case cs of d # ds \<Rightarrow> d = CHR '' '' | [] \<Rightarrow> False)
      then newline # stripSpacesAfterNewline (dropWhile (\<lambda>x. x = CHR '' '') cs)
      else c # stripSpacesAfterNewline cs)"
  by pat_completeness auto
termination
  by (relation "measure length") (auto simp add: le_imp_less_Suc length_dropWhile_le)

text \<open>\<open>replace(/(P)(Q)/g, "$1 $2")\<close> for two character classes.\<close>

fun spaceBetween :: "(char \<Rightarrow> bool) \<Rightarrow> (char \<Rightarrow> bool) \<Rightarrow> string \<Rightarrow> string" where
  "spaceBetween p q (a # b # cs) =
     (if p a \<and> q b then a # CHR '' '' # b # spaceBetween p q cs
      else a # spaceBetween p q (b # cs))"
| "spaceBetween p q cs = cs"

text \<open>\<open>replace(/([a-z])([A-Z][a-z])/g, "$1 $2")\<close>.\<close>

fun spaceBeforeCapitalised :: "string \<Rightarrow> string" where
  "spaceBeforeCapitalised (a # b # c # cs) =
     (if isLower a \<and> isUpper b \<and> isLower c then a # CHR '' '' # b # c # spaceBeforeCapitalised cs
      else a # spaceBeforeCapitalised (b # c # cs))"
| "spaceBeforeCapitalised cs = cs"

text \<open>
  \<open>replace(/(P)(w)(P)/gi, "$1 $2 $3")\<close> for a character class \<open>P\<close> and a word \<open>w\<close> in lower
  case: the character in front, the word in whatever case it has in the text, and the
  character behind are all consumed by the match.
\<close>

function spaceAroundWord :: "(char \<Rightarrow> bool) \<Rightarrow> string \<Rightarrow> string \<Rightarrow> string" where
  "spaceAroundWord p w [] = []"
| "spaceAroundWord p w (a # cs) =
     (if p a \<and> length w < length cs \<and> map lowerCase (take (length w) cs) = w
         \<and> p (cs ! length w)
      then a # CHR '' '' # take (length w) cs @ CHR '' '' # cs ! length w
             # spaceAroundWord p w (drop (Suc (length w)) cs)
      else a # spaceAroundWord p w cs)"
  by pat_completeness auto
termination
  by (relation "measure (\<lambda>(p, w, s). length s)") auto

section \<open>The text normalizer\<close>

text \<open>The words of the substitutions of \<open>cleanAndFormatText\<close>, in the order of the source.\<close>

definition commonWords :: "string list" where
  "commonWords =
     [''and'', ''the'', ''to'', ''of'', ''in'', ''for'', ''with'', ''that'', ''this'', ''from'',
      ''will'', ''have'', ''been'', ''were'', ''are'', ''not'', ''can'', ''all'', ''but'', ''was'',
      ''has'', ''had'', ''one'', ''you'', ''may'', ''use'', ''its'', ''your'', ''their'', ''what'',
      ''said'', ''each'', ''which'', ''do'', ''how'', ''if'', ''up'', ''out'', ''many'', ''then'',
      ''them'', ''these'', ''so'', ''some'', ''her'', ''would'', ''make'', ''like'', ''time'',
      ''very'', ''when'', ''come'', ''his'', ''here'', ''just'', ''long'', ''get'', ''own'', ''say'',
      ''she'', ''way'', ''too'', ''any'', ''day'', ''man'', ''new'', ''now'', ''old'', ''see'',
      ''him'', ''two'', ''more'', ''go'', ''no'', ''first'', ''call'', ''who'']"

text \<open>
  The substitutions of \<open>cleanAndFormatText\<close> that insert a space at a boundary, from the
  fifth \<open>replace\<close> to the last word.
\<close>

definition insertBoundaries :: "string \<Rightarrow> string" where
  "insertBoundaries t4 =
     (let t5 = spaceBetween isLower isUpper t4;
          t6 = spaceBetween isLetter isDigit t5;
          t7 = spaceBetween isDigit isLetter t6;
          t8 = spaceBetween (\<lambda>c. c = CHR ''.'' \<or> c = CHR ''!'' \<or> c = CHR ''?'') isUpper t7;
          t9 = spaceBeforeCapitalised t8
      in fold (spaceAroundWord isWordChar) commonWords t9)"

definition cleanAndFormatText :: "string \<Rightarrow> string" where
  "cleanAndFormatText rawText =
     (if rawText = [] then []
      else
        (let t1 = collapseRuns (\<lambda>c. c = CHR '' '' \<or> c = tab) rawText;
             t2 = capNewlines t1;
             t3 = stripSpacesBeforeNewline t2;
             t4 = stripSpacesAfterNewline t3;
             t10 = insertBoundaries t4
         in trim (collapseRuns isSpace t10)))"

text \<open>
  A text whose only white space is single spaces between other characters: what the last two
  steps of \<open>cleanAndFormatText\<close> leave.
\<close>

fun singleSpaced :: "string \<Rightarrow> bool" where
  "singleSpaced (a # b # cs) = (\<not> (a = CHR '' '' \<and> b = CHR '' '') \<and> singleSpaced (b # cs))"
| "singleSpaced cs = True"

definition whitespaceNormal :: "string \<Rightarrow> bool" where
  "whitespaceNormal s =
     (list_all (\<lambda>c. isSpace c \<longrightarrow> c = CHR '' '') s \<and> singleSpaced s
      \<and> (s \<noteq> [] \<longrightarrow> hd s \<noteq> CHR '' '' \<and> last s \<noteq> CHR '' ''))"

section \<open>The last-resort spacing pass\<close>

definition basicWords :: "string list" where
  "basicWords =
     [''and'', ''the'', ''to'', ''of'', ''in'', ''for'', ''with'', ''that'', ''this'', ''from'',
      ''will'', ''have'', ''been'', ''were'', ''are'', ''not'', ''can'', ''all'', ''but'', ''was'']"

definition addBasicSpacingToText :: "string \<Rightarrow> string" where
  "addBasicSpacingToText concatenatedText =
     (if concatenatedText = [] \<or> includesSpace concatenatedText then concatenatedText
      else
        (let t1 = spaceBetween isLower isUpper concatenatedText;
             t2 = spaceBetween isLetter isDigit t1;
             t3 = spaceBetween isDigit isLetter t2;
             t4 = spaceBetween
                    (\<lambda>c. c = CHR ''.'' \<or> c = CHR ''!'' \<or> c = CHR ''?'' \<or> c = CHR '','' \<or> c = CHR '':''
                       \<or> c = CHR '';'') isLetter t3;
             t5 = fold (spaceAroundWord isLetter) basicWords t4
         in trim (collapseRuns isSpace t5)))"

section \<open>Sorting an array with a comparator\<close>

text \<open>
  \<open>Array.prototype.sort\<close> with a comparator. The language fixes the result only for a
  comparator that is consistent on the elements of the array: every call returns a number
  that is not \<open>NaN\<close>, an element compares equal to itself, comparing equal is symmetric and
  transitive, and so are coming before and coming after. The result is then the array in
  ascending order, with the elements that compare equal in their original order. For any
  other comparator, which includes one that throws or returns \<open>NaN\<close> for some pair, the
  calls that are made and the order that results are left to the implementation: the model
  gives no result, \<open>None\<close>. An array of fewer than two elements is returned without a call
  of the comparator.
\<close>

datatype verdict = Before | Same | After

definition verdictOf :: "('a \<Rightarrow> 'a \<Rightarrow> error + jsnum) \<Rightarrow> 'a \<Rightarrow> 'a \<Rightarrow> verdict option" where
  "verdictOf cmp a b =
     (case cmp a b of
        Inl e \<Rightarrow> None
      | Inr v \<Rightarrow>
          if v = NaN then None
          else if jlt v (Fin 0) then Some Before
          else if jgt v (Fin 0) then Some After
          else Some Same)"

definition consistentComparator :: "('a \<Rightarrow> 'a \<Rightarrow> error + jsnum) \<Rightarrow> 'a list \<Rightarrow> bool" where
  "consistentComparator cmp xs =
     (list_all (\<lambda>a. list_all (\<lambda>b. verdictOf cmp a b \<noteq> None) xs) xs
      \<and> list_all (\<lambda>a. verdictOf cmp a a = Some Same) xs
      \<and> list_all (\<lambda>a. list_all (\<lambda>b.
            if verdictOf cmp a b = Some Same then verdictOf cmp b a = Some Same else True) xs) xs
      \<and> list_all (\<lambda>a. list_all (\<lambda>b. list_all (\<lambda>c.
            if verdictOf cmp a b = verdictOf cmp b c then verdictOf cmp a c = verdictOf cmp a b
            else True) xs) xs) xs)"

text \<open>
  The ascending order by insertion: each element goes in front of the first element of the
  part already in order that the comparator places after it.
\<close>

fun insertBy :: "('a \<Rightarrow> 'a \<Rightarrow> error + jsnum) \<Rightarrow> 'a \<Rightarrow> 'a list \<Rightarrow> 'a list" where
  "insertBy cmp x [] = [x]"
| "insertBy cmp x (y # ys) =
     (if verdictOf cmp y x = Some After then x # y # ys else y # insertBy cmp x ys)"

fun sortInto :: "('a \<Rightarrow> 'a \<Rightarrow> error + jsnum) \<Rightarrow> 'a list \<Rightarrow> 'a list \<Rightarrow> 'a list" where
  "sortInto cmp placed [] = placed"
| "sortInto cmp placed (x # xs) = sortInto cmp (insertBy cmp x placed) xs"

definition arraySort :: "('a \<Rightarrow> 'a \<Rightarrow> error + jsnum) \<Rightarrow> 'a list \<Rightarrow> 'a list option" where
  "arraySort cmp xs =
     (if length xs < 2 then Some xs
      else if consistentComparator cmp xs then Some (sortInto cmp [] xs)
      else None)"

section \<open>Assembling the text of a page\<close>

definition hasBox :: "word \<Rightarrow> bool" where
  "hasBox w = (case boundingBox w of None \<Rightarrow> False | Some bb \<Rightarrow> 8 \<le> length bb)"

fun processWordsWithSpacing :: "word list \<Rightarrow> string" where
  "processWordsWithSpacing [] = []"
| "processWordsWithSpacing [w] = wtext w"
| "processWordsWithSpacing (w # nextWord # ws) =
     wtext w
     @ (if hasBox w \<and> hasBox nextWord then calculateSpacingBetweenWords w nextWord else '' '')
     @ processWordsWithSpacing (nextWord # ws)"

text \<open>
  The loop of \<open>processLinesWithIntelligentSpacing\<close>, with the text built so far and the last
  line that had visible text.
\<close>

fun processLinesLoop :: "line list \<Rightarrow> string \<Rightarrow> line option \<Rightarrow> error + string" where
  "processLinesLoop [] formattedText previousLine = Inr formattedText"
| "processLinesLoop (l # ls) formattedText previousLine =
     (case words l of
        None \<Rightarrow> processLinesLoop ls formattedText previousLine
      | Some ws \<Rightarrow>
          if ws = [] then processLinesLoop ls formattedText previousLine
          else
            (let lineText = processWordsWithSpacing ws
             in if trim lineText \<noteq> [] then
                  (case previousLine of
                     None \<Rightarrow> processLinesLoop ls (formattedText @ lineText) (Some l)
                   | Some previous \<Rightarrow>
                       (case calculateSpacingBetweenLines previous l of
                          Inl e \<Rightarrow> Inl e
                        | Inr lineSpacing \<Rightarrow>
                            processLinesLoop ls (formattedText @ lineSpacing @ lineText) (Some l)))
                else processLinesLoop ls (formattedText @ lineText) previousLine))"

definition processLinesWithIntelligentSpacing :: "line list \<Rightarrow> error + string" where
  "processLinesWithIntelligentSpacing ls = processLinesLoop ls [] None"

text \<open>
  \<open>applyForcedSpacingToCompactText\<close>. The words collected from the lines are those with a
  bounding box of at least 8 entries; a collected word carries its text, its box and its
  confidence or 0 (and the index of its line, which is never read).
\<close>

definition collectedWord :: "word \<Rightarrow> word" where
  "collectedWord w =
     \<lparr>wtext = wtext w, boundingBox = boundingBox w,
      confidence = Some (case confidence w of None \<Rightarrow> 0 | Some c \<Rightarrow> c)\<rparr>"

definition collectWords :: "line list \<Rightarrow> word list" where
  "collectWords ls =
     concat (map (\<lambda>l. case words l of None \<Rightarrow> []
                        | Some ws \<Rightarrow> map collectedWord (filter hasBox ws)) ls)"

text \<open>All the words of the lines of a page, in reading order of the arrays.\<close>

definition pageWords :: "line list \<Rightarrow> word list" where
  "pageWords ls = concat (map (\<lambda>l. case words l of None \<Rightarrow> [] | Some ws \<Rightarrow> ws) ls)"

definition compareByPosition :: "word \<Rightarrow> word \<Rightarrow> error + jsnum" where
  "compareByPosition a b =
     (case boundingBox a of None \<Rightarrow> Inl TypeError | Some ab \<Rightarrow>
      case Math_min4 (entry ab 1) (entry ab 3) (entry ab 5) (entry ab 7) of
        Inl e \<Rightarrow> Inl e | Inr aTop \<Rightarrow>
      case boundingBox b of None \<Rightarrow> Inl TypeError | Some bb \<Rightarrow>
      case Math_min4 (entry bb 1) (entry bb 3) (entry bb 5) (entry bb 7) of
        Inl e \<Rightarrow> Inl e | Inr bTop \<Rightarrow>
      case Math_min4 (entry ab 0) (entry ab 2) (entry ab 4) (entry ab 6) of
        Inl e \<Rightarrow> Inl e | Inr aLeft \<Rightarrow>
      case Math_min4 (entry bb 0) (entry bb 2) (entry bb 4) (entry bb 6) of
        Inl e \<Rightarrow> Inl e | Inr bLeft \<Rightarrow>
      case Math_max4 (entry ab 1) (entry ab 3) (entry ab 5) (entry ab 7) of
        Inl e \<Rightarrow> Inl e | Inr aMax \<Rightarrow>
      case Math_max4 (entry bb 1) (entry bb 3) (entry bb 5) (entry bb 7) of
        Inl e \<Rightarrow> Inl e | Inr bMax \<Rightarrow>
      (let aHeight = jsub aMax aTop;
           bHeight = jsub bMax bTop;
           avgHeight = jdiv (jadd aHeight bHeight) (Fin 2)
       in if jgt (jabs (jsub aTop bTop)) (jmul avgHeight (toDouble (5 / 10)))
          then Inr (jsub aTop bTop)
          else Inr (jsub aLeft bLeft)))"

fun joinWithSpacing :: "word list \<Rightarrow> string" where
  "joinWithSpacing [] = []"
| "joinWithSpacing [w] = wtext w"
| "joinWithSpacing (currentWord # nextWord # ws) =
     wtext currentWord @ calculateSpacingBetweenWords currentWord nextWord
     @ joinWithSpacing (nextWord # ws)"

definition applyForcedSpacingToCompactText :: "line list \<Rightarrow> string option" where
  "applyForcedSpacingToCompactText ls =
     (case arraySort compareByPosition (collectWords ls) of
        None \<Rightarrow> None
      | Some allWords \<Rightarrow> Some (joinWithSpacing allWords))"

text \<open>
  The text of one page in \<open>processOCRResults\<close>, before it is normalised: the three passes.
  \<open>INTELLIGENT_SPACING.ENABLED\<close> and \<open>FORCE_SPACING_ON_NO_GAPS\<close> are both set. The result is
  \<open>None\<close> where the second pass sorts with a comparator that is not consistent on the words
  of the page.
\<close>

definition someLineHasSeveralWords :: "line list \<Rightarrow> bool" where
  "someLineHasSeveralWords ls =
     list_ex (\<lambda>l. case words l of None \<Rightarrow> False | Some ws \<Rightarrow> 1 < length ws) ls"

definition pageTextWithSpacing :: "line list \<Rightarrow> (error + string) option" where
  "pageTextWithSpacing ls =
     (case processLinesWithIntelligentSpacing ls of
        Inl e \<Rightarrow> Some (Inl e)
      | Inr pageText \<Rightarrow>
          if \<not> includesSpace pageText \<and> someLineHasSeveralWords ls then
            (case applyForcedSpacingToCompactText ls of
               None \<Rightarrow> None
             | Some forcedText \<Rightarrow>
                 if \<not> includesSpace forcedText then Some (Inr (addBasicSpacingToText forcedText))
                 else Some (Inr forcedText))
          else Some (Inr pageText))"

section \<open>The existence probe\<close>

text \<open>
  The six indicator patterns, each as a function from the text at a position to the text
  behind the match there. The file is read as a binary string, one character per byte.
\<close>

definition startsWith :: "string \<Rightarrow> string \<Rightarrow> bool" where
  "startsWith p s = (take (length p) s = p)"

text \<open>\<open>/K1\s*K2/\<close> for two literal keys that begin with a slash.\<close>

definition matchKeyPair :: "string \<Rightarrow> string \<Rightarrow> string \<Rightarrow> string option" where
  "matchKeyPair k1 k2 s =
     (if startsWith k1 s then
        (let r = dropWhile isSpace (drop (length k1) s)
         in if startsWith k2 r then Some (drop (length k2) r) else None)
      else None)"

text \<open>\<open>.*?ET\<close>: the nearest \<open>ET\<close> on the same line.\<close>

fun upToET :: "string \<Rightarrow> string option" where
  "upToET [] = None"
| "upToET (c # cs) =
     (if startsWith ''ET'' (c # cs) then Some (drop 2 (c # cs))
      else if isLineTerminator c then None
      else upToET cs)"

text \<open>\<open>/BT\s+.*?ET/\<close>.\<close>

definition matchTextObject :: "string \<Rightarrow> string option" where
  "matchTextObject s =
     (if startsWith ''BT'' s then
        (case drop 2 s of
           [] \<Rightarrow> None
         | c # cs \<Rightarrow> if isSpace c then upToET (dropWhile isSpace cs) else None)
      else None)"

text \<open>
  \<open>/Tj\s*$/m\<close> and \<open>/TJ\s*$/m\<close>: the operator, then white space up to the end of the input or
  up to the last line terminator of the run of white space.
\<close>

definition matchShowOperator :: "string \<Rightarrow> string \<Rightarrow> string option" where
  "matchShowOperator op s =
     (if startsWith op s then
        (let r = drop (length op) s;
             run = takeWhile isSpace r;
             behind = dropWhile isSpace r;
             afterLast = rev (takeWhile (\<lambda>c. \<not> isLineTerminator c) (rev run))
         in if behind = [] then Some []
            else if list_ex isLineTerminator run
              then Some (drop (length run - Suc (length afterLast)) run @ behind)
            else None)
      else None)"

text \<open>
  \<open>s.match(/.../g)\<close>: the number of matches found from left to right, each search starting
  behind the match before it.
\<close>

function countMatches :: "(string \<Rightarrow> string option) \<Rightarrow> string \<Rightarrow> nat" where
  "countMatches m [] = 0"
| "countMatches m (c # cs) =
     (case m (c # cs) of
        None \<Rightarrow> countMatches m cs
      | Some behind \<Rightarrow>
          if length behind \<le> length cs then Suc (countMatches m behind)
          else Suc (countMatches m cs))"
  by pat_completeness auto
termination
  by (relation "measure (\<lambda>(m, s). length s)") auto

definition textIndicatorCount :: "string \<Rightarrow> nat" where
  "textIndicatorCount pdfString =
     countMatches (matchKeyPair ''/Type'' ''/Font'') pdfString
     + countMatches (matchKeyPair ''/Subtype'' ''/Type1'') pdfString
     + countMatches (matchKeyPair ''/Subtype'' ''/TrueType'') pdfString
     + countMatches matchTextObject pdfString
     + countMatches (matchShowOperator ''Tj'') pdfString
     + countMatches (matchShowOperator ''TJ'') pdfString"

record probeResult =
  hasText :: bool
  extractedText :: string
  pageCount :: nat
  textLength :: nat

text \<open>
  \<open>checkPDFTextWithPdfParse\<close>, given what reading the file gives: its bytes, or nothing where
  the read fails and the \<open>catch\<close> clause answers.
\<close>

definition checkPDFTextWithPdfParse :: "string option \<Rightarrow> probeResult" where
  "checkPDFTextWithPdfParse pdfBytes =
     (case pdfBytes of
        None \<Rightarrow> \<lparr>hasText = False, extractedText = [], pageCount = 0, textLength = 0\<rparr>
      | Some pdfString \<Rightarrow>
          (let indicators = textIndicatorCount pdfString;
               found = (5 < indicators)
           in \<lparr>hasText = found,
               extractedText = (if found then ''[Text detected but not extracted]'' else []),
               pageCount = 1,
               textLength = (if found then indicators * 10 else 0)\<rparr>))"

section \<open>Polling the recognition service\<close>

text \<open>
  What one call of \<open>client.getReadResult\<close> answers: the status of the operation, with the
  pages where it has succeeded. The call itself may throw.
\<close>

datatype 'r readResult = NotStarted | Running | Failed | Succeeded 'r

datatype event = Sleep | Poll

text \<open>
  The \<open>do ... while\<close> loop of \<open>readTextFromFile\<close>. \<open>getReadResult n\<close> is the answer to the
  \<open>n\<close>-th poll; the trace records every suspension and every poll in order. The loop body
  sleeps, polls, counts the attempt, and throws the timeout when the count has reached
  \<open>maxAttempts\<close>; only then does the \<open>while\<close> condition look at the status.
\<close>

function pollLoop ::
  "(nat \<Rightarrow> error + 'r readResult) \<Rightarrow> nat \<Rightarrow> nat \<Rightarrow> event list \<Rightarrow> (error + 'r) \<times> event list"
where
  "pollLoop getReadResult maxAttempts attempts trace =
     (case getReadResult (Suc attempts) of
        Inl e \<Rightarrow> (Inl e, trace @ [Sleep, Poll])
      | Inr readResult \<Rightarrow>
          if maxAttempts \<le> Suc attempts
          then (Inl (Error ''Azure OCR operation timeout''), trace @ [Sleep, Poll])
          else
            (case readResult of
               NotStarted \<Rightarrow>
                 pollLoop getReadResult maxAttempts (Suc attempts) (trace @ [Sleep, Poll])
             | Running \<Rightarrow>
                 pollLoop getReadResult maxAttempts (Suc attempts) (trace @ [Sleep, Poll])
             | Failed \<Rightarrow> (Inl (Error ''Azure OCR operation failed''), trace @ [Sleep, Poll])
             | Succeeded readResults \<Rightarrow> (Inr readResults, trace @ [Sleep, Poll])))"
  by pat_completeness auto
termination
  by (relation "measure (\<lambda>(g, maxAttempts, attempts, trace). maxAttempts - attempts)") auto

definition pollReadResult :: "(nat \<Rightarrow> error + 'r readResult) \<Rightarrow> (error + 'r) \<times> event list" where
  "pollReadResult getReadResult = pollLoop getReadResult TIMEOUT_SECONDS 0 []"

definition pollCount :: "event list \<Rightarrow> nat" where
  "pollCount trace = length (filter (\<lambda>ev. ev = Poll) trace)"

definition sleepCount :: "event list \<Rightarrow> nat" where
  "sleepCount trace = length (filter (\<lambda>ev. ev = Sleep) trace)"

text \<open>The suspensions between the first poll and the last.\<close>

definition interveningSleeps :: "event list \<Rightarrow> nat" where
  "interveningSleeps trace = sleepCount (dropWhile (\<lambda>ev. ev \<noteq> Poll) trace)"

section \<open>The entry point\<close>

record ocrResult =
  resultText :: string
  resultConfidence :: real
  ocrEngine :: string
  skippedOCR :: bool

text \<open>
  What \<open>extractText\<close> finds around it: the path functions of the platform, the file system,
  whether a recognition client was configured at start-up, and the outcome of the
  recognition call and of the processing of its pages, each of which may throw.
\<close>

record 'r environment =
  fullPathOf :: "string \<Rightarrow> string"
  baseName :: "string \<Rightarrow> string"
  statSize :: "string \<Rightarrow> nat option"
  readFile :: "string \<Rightarrow> string option"
  clientConfigured :: bool
  readTextFromFile :: "string \<Rightarrow> error + 'r"
  processOCRResults :: "'r \<Rightarrow> error + string \<times> real"

fun digitChar :: "nat \<Rightarrow> char" where
  "digitChar n = char_of (48 + n)"

function showNat :: "nat \<Rightarrow> string" where
  "showNat n = (if n < 10 then [digitChar n] else showNat (n div 10) @ [digitChar (n mod 10)])"
  by pat_completeness auto
termination
  by (relation "measure id") auto

text \<open>\<open>simulateOCR\<close>: a failing \<open>stat\<close> is answered by size 0, so nothing in it throws.\<close>

definition simulateOCR :: "'r environment \<Rightarrow> string \<Rightarrow> string \<Rightarrow> ocrResult" where
  "simulateOCR env filePath mimetype =
     (let fileName = baseName env filePath;
          fileSize = (case statSize env filePath of None \<Rightarrow> 0 | Some n \<Rightarrow> n)
      in \<lparr>resultText =
            ''[FALLBACK] Could not process file with Azure Computer Vision.'' @ [newline]
            @ ''File: '' @ fileName @ [newline]
            @ ''Size: '' @ showNat fileSize @ '' bytes'' @ [newline]
            @ ''Reason: Azure API unavailable'' @ [newline, newline]
            @ ''Fix by checking VISION_KEY and VISION_ENDPOINT in .env'',
          resultConfidence = 50,
          ocrEngine = ''Simulation'',
          skippedOCR = False\<rparr>)"

text \<open>The body of the \<open>try\<close> block of \<open>extractText\<close>.\<close>

definition extractTextBody :: "'r environment \<Rightarrow> string \<Rightarrow> string \<Rightarrow> error + ocrResult" where
  "extractTextBody env filePath mimetype =
     (if filePath = [] \<or> mimetype = [] then Inl (Error ''File path and MIME type are required'')
      else
        (let fullPath = fullPathOf env filePath
         in case statSize env fullPath of
              None \<Rightarrow> Inl (Error ''ENOENT: no such file or directory'')
            | Some fileSize \<Rightarrow>
                if MAX_FILE_SIZE_BYTES < fileSize
                then Inl (Error (''File size exceeds limit of '' @ showNat MAX_FILE_SIZE_BYTES
                                 @ '' bytes''))
                else if mimetype = ''application/pdf''
                        \<and> hasText (checkPDFTextWithPdfParse (readFile env fullPath))
                then Inr \<lparr>resultText =
                            extractedText (checkPDFTextWithPdfParse (readFile env fullPath)),
                          resultConfidence = 95,
                          ocrEngine = ''Existing PDF Text'',
                          skippedOCR = True\<rparr>
                else if \<not> clientConfigured env then Inr (simulateOCR env fullPath mimetype)
                else if startsWith ''image/'' mimetype \<or> mimetype = ''application/pdf'' then
                  (case readTextFromFile env fullPath of
                     Inl e \<Rightarrow> Inl e
                   | Inr result \<Rightarrow>
                       (case processOCRResults env result of
                          Inl e \<Rightarrow> Inl e
                        | Inr (extracted, averageConfidence) \<Rightarrow>
                            Inr \<lparr>resultText = extracted, resultConfidence = averageConfidence,
                                 ocrEngine = ''Azure Computer Vision'', skippedOCR = False\<rparr>))
                else Inl (Error ''Unsupported file type. Only images and PDFs are supported.'')))"

text \<open>
  \<open>extractText\<close>: whatever the body throws is caught, logged, and answered by
  \<open>simulateOCR\<close> on the path as the caller gave it.
\<close>

definition extractText :: "'r environment \<Rightarrow> string \<Rightarrow> string \<Rightarrow> error + ocrResult" where
  "extractText env filePath mimetype =
     (case extractTextBody env filePath mimetype of
        Inl e \<Rightarrow> Inr (simulateOCR env filePath mimetype)
      | Inr result \<Rightarrow> Inr result)"

text \<open>An environment for examples: every file exists with the given size, and recognition succeeds.\<close>

definition exampleEnvironment :: "nat \<Rightarrow> bool \<Rightarrow> unit environment" where
  "exampleEnvironment fileSize configured =
     \<lparr>fullPathOf = (\<lambda>p. p), baseName = (\<lambda>p. p), statSize = (\<lambda>p. Some fileSize),
      readFile = (\<lambda>p. Some []), clientConfigured = configured,
      readTextFromFile = (\<lambda>p. Inr ()), processOCRResults = (\<lambda>r. Inr (''text'', 90))\<rparr>"

section \<open>The overlay onto an existing document\<close>

definition Math_round :: "jsnum \<Rightarrow> jsnum" where
  "Math_round a = (case a of Fin x \<Rightarrow> Fin (of_int \<lfloor>x + 1 / 2\<rfloor>) | _ \<Rightarrow> a)"

text \<open>
  \<open>" ".repeat(n)\<close>: the count is truncated towards zero; a negative or infinite count throws,
  \<open>NaN\<close> counts as 0.
\<close>

definition repeatSpace :: "jsnum \<Rightarrow> error + string" where
  "repeatSpace n =
     (case n of
        Fin k \<Rightarrow> if k \<le> - 1 then Inl RangeError else Inr (replicate (nat \<lfloor>k\<rfloor>) (CHR '' ''))
      | NaN \<Rightarrow> Inr []
      | _ \<Rightarrow> Inl RangeError)"

text \<open>The comparator \<open>(a, b) => a.boundingBox[0] - b.boundingBox[0]\<close>.\<close>

definition compareByFirstX :: "word \<Rightarrow> word \<Rightarrow> error + jsnum" where
  "compareByFirstX a b =
     (case boundingBox a of None \<Rightarrow> Inl TypeError | Some ab \<Rightarrow>
      case boundingBox b of None \<Rightarrow> Inl TypeError | Some bb \<Rightarrow>
      case toNumber (entry ab 0) of Inl e \<Rightarrow> Inl e | Inr x \<Rightarrow>
      case toNumber (entry bb 0) of Inl e \<Rightarrow> Inl e | Inr y \<Rightarrow> Inr (jsub x y))"

text \<open>
  The text drawn for a line: the words in sorted order, with as many spaces between two of
  them as the gap holds characters of the fixed-advance font, and at least one.
\<close>

fun overlayLineText :: "jsnum \<Rightarrow> word list \<Rightarrow> error + string" where
  "overlayLineText charWidth [] = Inl TypeError"
| "overlayLineText charWidth [w] = Inr (wtext w)"
| "overlayLineText charWidth (prevWord # currWord # ws) =
     (case boundingBox prevWord of None \<Rightarrow> Inl TypeError | Some pb \<Rightarrow>
      case Math_max4 (entry pb 0) (entry pb 2) (entry pb 4) (entry pb 6) of
        Inl e \<Rightarrow> Inl e | Inr prevEnd \<Rightarrow>
      case boundingBox currWord of None \<Rightarrow> Inl TypeError | Some cb \<Rightarrow>
      case Math_min4 (entry cb 0) (entry cb 2) (entry cb 4) (entry cb 6) of
        Inl e \<Rightarrow> Inl e | Inr currStart \<Rightarrow>
      case repeatSpace (jmax2 (Fin 1) (Math_round (jdiv (jsub currStart prevEnd) charWidth))) of
        Inl e \<Rightarrow> Inl e | Inr spaces \<Rightarrow>
      case overlayLineText charWidth (currWord # ws) of
        Inl e \<Rightarrow> Inl e | Inr rest \<Rightarrow> Inr (wtext prevWord @ spaces @ rest))"

text \<open>\<open>a || b\<close> for an optional number \<open>a\<close>.\<close>

definition orElse :: "jsnum option \<Rightarrow> jsnum \<Rightarrow> jsnum" where
  "orElse a b = (case a of None \<Rightarrow> b | Some n \<Rightarrow> if truthy n then n else b)"

record drawn =
  drawnText :: string
  drawnX :: jsnum
  drawnY :: jsnum

text \<open>
  \<open>drawText\<close> of the document library, as far as the loop depends on it. It validates its
  options and throws a \<open>TypeError\<close> where \<open>x\<close> or \<open>y\<close> is \<open>NaN\<close>; it throws where the font
  cannot encode the text, which the model takes as a given property \<open>encodable\<close> of texts;
  otherwise it draws the text at \<open>(x, y)\<close>.
\<close>

definition drawText :: "(string \<Rightarrow> bool) \<Rightarrow> string \<Rightarrow> jsnum \<Rightarrow> jsnum \<Rightarrow> error + drawn" where
  "drawText encodable t x y =
     (if x = NaN \<or> y = NaN then Inl TypeError
      else if encodable t then Inr \<lparr>drawnText = t, drawnX = x, drawnY = y\<rparr>
      else Inl (Error ''cannot encode''))"

text \<open>
  The body of the loop over the lines in \<open>createContinuousSearchablePdfFromPDF\<close>, for one
  line with at least one word, on a target page of the given width and height, from a
  recognised page: \<open>Some (Inr d)\<close> where it draws, \<open>Some (Inl e)\<close> where it throws, \<open>None\<close>
  where the order of its words is left to the implementation.
\<close>

definition drawLine ::
  "(string \<Rightarrow> bool) \<Rightarrow> jsnum \<Rightarrow> real \<Rightarrow> real \<Rightarrow> page \<Rightarrow> word list \<Rightarrow> (error + drawn) option" where
  "drawLine encodable charWidth pageWidth pageHeight page lineWords =
     (case arraySort compareByFirstX lineWords of
        None \<Rightarrow> None
      | Some sortedWords \<Rightarrow>
          Some
           (case sortedWords of [] \<Rightarrow> Inl TypeError | word0 # _ \<Rightarrow>
            case overlayLineText charWidth sortedWords of Inl e \<Rightarrow> Inl e | Inr fullText \<Rightarrow>
            case boundingBox word0 of None \<Rightarrow> Inl TypeError | Some bb \<Rightarrow>
            case Math_min4 (entry bb 1) (entry bb 3) (entry bb 5) (entry bb 7) of
              Inl e \<Rightarrow> Inl e | Inr minY \<Rightarrow>
            case Math_max4 (entry bb 1) (entry bb 3) (entry bb 5) (entry bb 7) of
              Inl e \<Rightarrow> Inl e | Inr maxY \<Rightarrow>
            case Math_min4 (entry bb 0) (entry bb 2) (entry bb 4) (entry bb 6) of
              Inl e \<Rightarrow> Inl e | Inr left \<Rightarrow>
            (let textHeight = jsub maxY minY;
                 ocrPageHeight = orElse (height page) (Fin pageHeight);
                 scaleX = jdiv (Fin pageWidth) (orElse (width page) (Fin pageWidth));
                 scaleY = jdiv (Fin pageHeight) ocrPageHeight;
                 startX = jmul left scaleX;
                 pdfY = jsub (jsub (Fin pageHeight) (jmul minY scaleY)) (jmul textHeight scaleY);
                 x = jmax2 (Fin 0) (jmin2 (jsub (Fin pageWidth) (Fin 10)) startX);
                 y = jmax2 (Fin 10) (jmin2 (jsub (Fin pageHeight) (Fin 10)) pdfY)
             in drawText encodable fullText x y)))"

text \<open>
  The lines of a recognised page that the loop does not skip, and the lines that the two
  loops visit, in their order, each with the index of its page: the page indices are those
  below the smaller of the two page counts.
\<close>

definition drawnLines :: "page \<Rightarrow> word list list" where
  "drawnLines page =
     (case lines page of None \<Rightarrow> []
      | Some ls \<Rightarrow> concat (map (\<lambda>l. case words l of None \<Rightarrow> []
                                      | Some ws \<Rightarrow> if ws = [] then [] else [ws]) ls))"

definition overlayJobs :: "(real \<times> real) list \<Rightarrow> page list \<Rightarrow> (nat \<times> word list) list" where
  "overlayJobs pdfPages pages =
     concat (map (\<lambda>pageIndex. map (\<lambda>ws. (pageIndex, ws)) (drawnLines (pages ! pageIndex)))
                 [0 ..< min (length pages) (length pdfPages)])"

text \<open>
  The two loops stand in one \<open>try\<close> block: the first line whose body throws ends them, and
  nothing that follows is drawn.
\<close>

fun drawAll ::
  "(nat \<times> word list \<Rightarrow> (error + drawn) option) \<Rightarrow> (nat \<times> word list) list
     \<Rightarrow> (error + drawn list) option" where
  "drawAll draw [] = Some (Inr [])"
| "drawAll draw (job # jobs) =
     (case draw job of
        None \<Rightarrow> None
      | Some (Inl e) \<Rightarrow> Some (Inl e)
      | Some (Inr d) \<Rightarrow>
          (case drawAll draw jobs of
             None \<Rightarrow> None
           | Some (Inl e) \<Rightarrow> Some (Inl e)
           | Some (Inr ds) \<Rightarrow> Some (Inr (d # ds))))"

text \<open>
  \<open>createContinuousSearchablePdfFromPDF\<close>, for a document that was read and loaded with the
  given page sizes and is saved without error: either the document with the texts drawn
  onto its pages, or, where a line threw, the text-only document that the \<open>catch\<close> clause
  writes in its place, which holds none of the drawn texts.
\<close>

datatype overlayResult = Overlay "drawn list" | FallbackDocument

definition createContinuousSearchablePdfFromPDF ::
  "(string \<Rightarrow> bool) \<Rightarrow> jsnum \<Rightarrow> (real \<times> real) list \<Rightarrow> page list \<Rightarrow> overlayResult option" where
  "createContinuousSearchablePdfFromPDF encodable charWidth pdfPages pages =
     (case drawAll (\<lambda>(pageIndex, ws).
                      drawLine encodable charWidth (fst (pdfPages ! pageIndex))
                        (snd (pdfPages ! pageIndex)) (pages ! pageIndex) ws)
                   (overlayJobs pdfPages pages) of
        None \<Rightarrow> None
      | Some (Inl e) \<Rightarrow> Some FallbackDocument
      | Some (Inr draws) \<Rightarrow> Some (Overlay draws))"

section \<open>Example inputs\<close>

definition boxed :: "string \<Rightarrow> real list \<Rightarrow> word" where
  "boxed t b = \<lparr>wtext = t, boundingBox = Some (finiteBox b), confidence = None\<rparr>"

definition unboxed :: "string \<Rightarrow> word" where
  "unboxed t = \<lparr>wtext = t, boundingBox = None, confidence = None\<rparr>"

text \<open>One line whose two words come right to left, 3 pixels apart.\<close>

definition reversedLine :: "line list" where
  "reversedLine =
     [\<lparr>words = Some [boxed ''World'' [53, 0, 103, 0, 103, 20, 53, 20],
                     boxed ''Hello'' [0, 0, 50, 0, 50, 20, 0, 20]],
       lineBox = None\<rparr>]"

text \<open>The same line with the two words 10 pixels apart.\<close>

definition reversedWideLine :: "line list" where
  "reversedWideLine =
     [\<lparr>words = Some [boxed ''World'' [60, 0, 110, 0, 110, 20, 60, 20],
                     boxed ''Hello'' [0, 0, 50, 0, 50, 20, 0, 20]],
       lineBox = None\<rparr>]"

text \<open>
  One rising line of three words, 3 pixels apart, each 8 pixels higher than the one before:
  neighbours are ordered by their left edges, the first and the last by their tops.
\<close>

definition slantedLine :: "line list" where
  "slantedLine =
     [\<lparr>words = Some [boxed ''Hello'' [0, 20, 50, 20, 50, 40, 0, 40],
                     boxed ''World'' [53, 12, 103, 12, 103, 32, 53, 32],
                     boxed ''Again'' [106, 4, 156, 4, 156, 24, 106, 24]],
       lineBox = None\<rparr>]"

text \<open>A title without a bounding box above a line of two overlapping words.\<close>

definition titledPage :: "line list" where
  "titledPage =
     [\<lparr>words = Some [unboxed ''Title''], lineBox = None\<rparr>,
      \<lparr>words = Some [boxed ''ab'' [0, 0, 50, 0, 50, 20, 0, 20],
                     boxed ''cd'' [45, 0, 95, 0, 95, 20, 45, 20]],
       lineBox = None\<rparr>]"

text \<open>A recognised page of 1000 by 1000 with one word at (100, 100), 20 high.\<close>

definition sourcePage :: page where
  "sourcePage =
     \<lparr>lines = Some [\<lparr>words = Some [boxed ''Hello'' [100, 100, 160, 100, 160, 120, 100, 120]],
                     lineBox = None\<rparr>],
      width = Some (Fin 1000), height = Some (Fin 1000)\<rparr>"

text \<open>A page of the same size with one line of two words, the right one first.\<close>

definition twoWordPage :: page where
  "twoWordPage =
     \<lparr>lines = Some [\<lparr>words = Some [boxed ''World'' [220, 100, 280, 100, 280, 120, 220, 120],
                                    boxed ''Hello'' [100, 100, 160, 100, 160, 120, 100, 120]],
                     lineBox = None\<rparr>],
      width = Some (Fin 1000), height = Some (Fin 1000)\<rparr>"

text \<open>The same page with a box of four numbers: left, top, width, height.\<close>

definition shortBoxPage :: page where
  "shortBoxPage =
     \<lparr>lines = Some [\<lparr>words = Some [boxed ''Hello'' [100, 100, 60, 20]], lineBox = None\<rparr>],
      width = Some (Fin 1000), height = Some (Fin 1000)\<rparr>"

section \<open>Properties of the rounding\<close>

lemma bitLength_0: "bitLength 0 = 0"
  by simp

lemma bitLength_1: "bitLength 1 = 1"
  by simp

lemma bitLength_Suc0: "bitLength (Suc 0) = 1"
  by simp

lemma bitLength_Bit0: "bitLength (numeral (Num.Bit0 n)) = Suc (bitLength (numeral n))"
  by (subst bitLength.simps) simp

lemma bitLength_Bit1: "bitLength (numeral (Num.Bit1 n)) = Suc (bitLength (numeral n))"
  by (subst bitLength.simps) simp

declare bitLength.simps [simp del]

lemmas double_eval = toDouble_def roundHalfEven_def exponentOf_def pow2_def Let_def
  bitLength_0 bitLength_1 bitLength_Suc0 bitLength_Bit0 bitLength_Bit1

lemma pow2_pos: "0 < pow2 q"
  by (simp add: pow2_def)

lemma roundHalfEven_nonneg: "0 \<le> m \<Longrightarrow> 0 \<le> roundHalfEven m"
  by (simp add: roundHalfEven_def Let_def)

text \<open>Rounding keeps the sign, and the rounded value of a real is never \<open>NaN\<close>.\<close>

lemma toDouble_nonpos: "x \<le> 0 \<Longrightarrow> toDouble x = NInf \<or> (\<exists>r. toDouble x = Fin r \<and> r \<le> 0)"
proof -
  assume x: "x \<le> 0"
  have "0 \<le> roundHalfEven (\<bar>x\<bar> / pow2 q)" for q
    by (rule roundHalfEven_nonneg) (simp add: pow2_pos less_imp_le)
  then have "0 \<le> real_of_int (roundHalfEven (\<bar>x\<bar> / pow2 q)) * pow2 q" for q
    by (simp add: pow2_pos less_imp_le)
  with x show ?thesis
    by (simp add: toDouble_def Let_def)
qed

lemma toDouble_nonneg: "0 \<le> x \<Longrightarrow> toDouble x = PInf \<or> (\<exists>r. toDouble x = Fin r \<and> 0 \<le> r)"
proof -
  assume x: "0 \<le> x"
  have "0 \<le> roundHalfEven (\<bar>x\<bar> / pow2 q)" for q
    by (rule roundHalfEven_nonneg) (simp add: pow2_pos less_imp_le)
  then have "0 \<le> real_of_int (roundHalfEven (\<bar>x\<bar> / pow2 q)) * pow2 q" for q
    by (simp add: pow2_pos less_imp_le)
  with x show ?thesis
    by (auto simp add: toDouble_def Let_def)
qed

lemma toDouble_not_NaN: "toDouble x \<noteq> NaN"
  by (simp add: toDouble_def Let_def)

text \<open>The doubles of the literals of the service.\<close>

lemma double_literals:
  "toDouble (5 / 10) = Fin (1 / 2)"
  "toDouble (7 / 10) = Fin (3152519739159347 / 2 ^ 52)"
  "toDouble (12 / 10) = Fin (5404319552844595 / 2 ^ 52)"
  "toDouble (3 / 10) = Fin (5404319552844595 / 2 ^ 54)"
  by (simp_all add: double_eval)

section \<open>Properties of the spacing classifier\<close>

lemma entry_finiteBox: "i < length xs \<Longrightarrow> entry (finiteBox xs) i = Number (Fin (xs ! i))"
  by (simp add: entry_def finiteBox_def)

lemma jmin2_Fin: "jmin2 (Fin a) (Fin b) = Fin (min a b)"
  by (simp add: jmin2_def min_def)

lemma jmax2_Fin: "jmax2 (Fin a) (Fin b) = Fin (max a b)"
  by (simp add: jmax2_def max_def)

lemma Math_min2_Fin: "Math_min2 (Number (Fin a)) (Number (Fin b)) = Inr (Fin (min a b))"
  by (simp add: Math_min2_def jmin2_Fin)

lemma Math_max2_Fin: "Math_max2 (Number (Fin a)) (Number (Fin b)) = Inr (Fin (max a b))"
  by (simp add: Math_max2_def jmax2_Fin)

lemma wordSpacingBody_finite:
  assumes "8 \<le> length b1" "8 \<le> length b2"
  shows "wordSpacingBody (finiteBox b1) (finiteBox b2) =
     Inr (if sameLine b1 b2 then
            (if jlt (horizontalGap b1 b2) (Fin 0) then []
             else if jle (horizontalGap b1 b2) MIN_WORD_GAP_PIXELS then []
             else if jle (horizontalGap b1 b2) (jmul (safeHeight b1 b2) WORD_SPACING_THRESHOLD)
               then '' ''
             else if jle (horizontalGap b1 b2) (jmul (safeHeight b1 b2) WIDE_SPACING_THRESHOLD)
               then ''  ''
             else if jle (horizontalGap b1 b2) (jmul (safeHeight b1 b2) (Fin 2)) then ''    ''
             else [tab])
          else
            (if jle (jabs (verticalGap b1 b2)) (jmul (safeHeight b1 b2) (toDouble (3 / 10)))
               then '' ''
             else if jle (jabs (verticalGap b1 b2)) (jmul (safeHeight b1 b2) (toDouble (12 / 10)))
               then [newline]
             else if jle (jabs (verticalGap b1 b2))
                       (jmul (safeHeight b1 b2) PARAGRAPH_SPACING_THRESHOLD)
               then [newline, newline]
             else [newline, newline, newline]))"
proof -
  have e1: "\<And>i. i < 8 \<Longrightarrow> entry (finiteBox b1) i = Number (Fin (b1 ! i))"
    using assms(1) by (simp add: entry_finiteBox)
  have e2: "\<And>i. i < 8 \<Longrightarrow> entry (finiteBox b2) i = Number (Fin (b2 ! i))"
    using assms(2) by (simp add: entry_finiteBox)
  have n: "(0::nat) < 8" "(1::nat) < 8" "(2::nat) < 8" "(3::nat) < 8" "(4::nat) < 8"
     "(5::nat) < 8" "(6::nat) < 8" "(7::nat) < 8" by simp_all
  show ?thesis
    unfolding wordSpacingBody_def sameLine_def safeHeight_def averageHeight_def
      horizontalGap_def verticalGap_def centerDistance_def wordHeight_def wordCenterY_def
      wordLeft_def wordRight_def wordTop_def wordBottom_def
    by (simp only: e1 [OF n(1)] e1 [OF n(2)] e1 [OF n(3)] e1 [OF n(4)] e1 [OF n(5)]
        e1 [OF n(6)] e1 [OF n(7)] e1 [OF n(8)] e2 [OF n(1)] e2 [OF n(2)] e2 [OF n(3)]
        e2 [OF n(4)] e2 [OF n(5)] e2 [OF n(6)] e2 [OF n(7)] e2 [OF n(8)]
        Math_min2_Fin Math_max2_Fin sum.case Let_def)
qed

lemma jmin4_Fin: "jmin4 (Fin a) (Fin b) (Fin c) (Fin d) = Fin (min (min (min a b) c) d)"
  by (simp only: jmin4_def jmin2_Fin)

lemma jmax4_Fin: "jmax4 (Fin a) (Fin b) (Fin c) (Fin d) = Fin (max (max (max a b) c) d)"
  by (simp only: jmax4_def jmax2_Fin)

lemma Math_min4_Fin:
  "Math_min4 (Number (Fin a)) (Number (Fin b)) (Number (Fin c)) (Number (Fin d)) =
     Inr (Fin (min (min (min a b) c) d))"
  by (simp add: Math_min4_def jmin4_Fin)

lemma Math_max4_Fin:
  "Math_max4 (Number (Fin a)) (Number (Fin b)) (Number (Fin c)) (Number (Fin d)) =
     Inr (Fin (max (max (max a b) c) d))"
  by (simp add: Math_max4_def jmax4_Fin)

lemma calculateSpacingBetweenLines_finite:
  assumes "lineBox line1 = Some (finiteBox b1)" "lineBox line2 = Some (finiteBox b2)"
    and "8 \<le> length b1" "8 \<le> length b2"
  shows "calculateSpacingBetweenLines line1 line2 =
     Inr (if jle (lineGap b1 b2) (jmul (lineHeight b1) (toDouble (3 / 10))) then [newline]
          else if jle (lineGap b1 b2) (jmul (lineHeight b1) (Fin 1)) then [newline]
          else if jle (lineGap b1 b2) (jmul (lineHeight b1) (Fin 2)) then [newline, newline]
          else [newline, newline, newline])"
proof -
  have e1: "\<And>i. i < 8 \<Longrightarrow> entry (finiteBox b1) i = Number (Fin (b1 ! i))"
    using assms(3) by (simp add: entry_finiteBox)
  have e2: "\<And>i. i < 8 \<Longrightarrow> entry (finiteBox b2) i = Number (Fin (b2 ! i))"
    using assms(4) by (simp add: entry_finiteBox)
  have n: "(1::nat) < 8" "(3::nat) < 8" "(5::nat) < 8" "(7::nat) < 8" by simp_all
  show ?thesis
    unfolding calculateSpacingBetweenLines_def lineGap_def lineHeight_def lineTop_def
      lineBottom_def
    by (simp only: assms(1,2) option.case e1 [OF n(1)] e1 [OF n(2)] e1 [OF n(3)] e1 [OF n(4)]
        e2 [OF n(1)] e2 [OF n(2)] e2 [OF n(3)] e2 [OF n(4)]
        Math_min4_Fin Math_max4_Fin sum.case Let_def)
qed

lemma calculateSpacingBetweenWords_sameLine:
  assumes "boundingBox word1 = Some (finiteBox b1)" "boundingBox word2 = Some (finiteBox b2)"
    and "8 \<le> length b1" "8 \<le> length b2"
  shows "calculateSpacingBetweenWords word1 word2 =
     (if sameLine b1 b2 then
            (if jlt (horizontalGap b1 b2) (Fin 0) then []
             else if jle (horizontalGap b1 b2) MIN_WORD_GAP_PIXELS then []
             else if jle (horizontalGap b1 b2) (jmul (safeHeight b1 b2) WORD_SPACING_THRESHOLD)
               then '' ''
             else if jle (horizontalGap b1 b2) (jmul (safeHeight b1 b2) WIDE_SPACING_THRESHOLD)
               then ''  ''
             else if jle (horizontalGap b1 b2) (jmul (safeHeight b1 b2) (Fin 2)) then ''    ''
             else [tab])
          else
            (if jle (jabs (verticalGap b1 b2)) (jmul (safeHeight b1 b2) (toDouble (3 / 10)))
               then '' ''
             else if jle (jabs (verticalGap b1 b2)) (jmul (safeHeight b1 b2) (toDouble (12 / 10)))
               then [newline]
             else if jle (jabs (verticalGap b1 b2))
                       (jmul (safeHeight b1 b2) PARAGRAPH_SPACING_THRESHOLD)
               then [newline, newline]
             else [newline, newline, newline]))"
proof -
  have l: "\<not> (length (finiteBox b1) < 8 \<or> length (finiteBox b2) < 8)"
    using assms(3,4) by (simp add: finiteBox_def)
  show ?thesis
    unfolding calculateSpacingBetweenWords_def
    by (simp only: assms(1,2) option.case l if_False wordSpacingBody_finite [OF assms(3,4)] sum.case)
qed

text \<open>
  Where the centres are closer than 0.7 times the average height, as the classifier computes
  both, the average height is positive and is the height that the classifier works with.
\<close>

lemma jlt_NInf: "\<not> jlt x NInf"
  by (cases x) simp_all

lemma jlt_NaN: "\<not> jlt x NaN"
  by (cases x) simp_all

lemma jabs_not_less_nonpos:
  assumes "toDouble x = NInf \<or> (\<exists>r. toDouble x = Fin r \<and> r \<le> 0)"
  shows "\<not> jlt (jabs d) (toDouble x)"
  using assms by (cases d) auto

lemma sameLine_average:
  assumes "jlt (centerDistance b1 b2) (jmul (averageHeight b1 b2) LINE_HEIGHT_TOLERANCE)"
  shows "jgt (averageHeight b1 b2) (Fin 0)"
proof (cases "averageHeight b1 b2")
  case (Fin a)
  have "0 < a"
  proof (rule ccontr)
    assume "\<not> 0 < a"
    then have "a * (3152519739159347 / 2 ^ 52) \<le> 0"
      by (simp add: mult_le_0_iff)
    then have "\<not> jlt (jabs d) (toDouble (a * (3152519739159347 / 2 ^ 52)))" for d
      by (rule jabs_not_less_nonpos [OF toDouble_nonpos])
    moreover have "jlt (jabs (jsub (wordCenterY b2) (wordCenterY b1)))
        (toDouble (a * (3152519739159347 / 2 ^ 52)))"
      using assms Fin by (simp add: centerDistance_def LINE_HEIGHT_TOLERANCE_def double_literals)
    ultimately show False by blast
  qed
  with Fin show ?thesis by (simp add: jgt_def)
next
  case PInf
  then show ?thesis by (simp add: jgt_def)
next
  case NInf
  with assms show ?thesis
    by (simp add: LINE_HEIGHT_TOLERANCE_def double_literals jinf_def jlt_NInf)
next
  case NaN
  with assms show ?thesis by (simp add: jlt_NaN)
qed

text \<open>
  C3, amended. Two words with finite boxes whose centres are vertically closer than the
  average box height \<open>h\<close> times \<open>LINE_HEIGHT_TOLERANCE\<close> (0.7), and whose horizontal gap
  \<open>g\<close> is not negative, every quantity as the classifier computes it in double precision:
  the rows are read in order. No separator up to \<open>MIN_WORD_GAP_PIXELS\<close>; one space where
  \<open>g\<close> is at most the rounded product of \<open>h\<close> and 0.5, the boundary included; two spaces
  up to the rounded product of \<open>h\<close> and 1.2; four spaces up to \<open>2 h\<close>; one tab character
  above.
\<close>

theorem same_line_spacing_table:
  assumes "boundingBox word1 = Some (finiteBox b1)" "boundingBox word2 = Some (finiteBox b2)"
    and "8 \<le> length b1" "8 \<le> length b2"
    and "jlt (centerDistance b1 b2) (jmul (averageHeight b1 b2) LINE_HEIGHT_TOLERANCE)"
    and "jle (Fin 0) (horizontalGap b1 b2)"
  shows "calculateSpacingBetweenWords word1 word2 =
     (if jle (horizontalGap b1 b2) MIN_WORD_GAP_PIXELS then []
      else if jle (horizontalGap b1 b2) (jmul (averageHeight b1 b2) WORD_SPACING_THRESHOLD)
        then '' ''
      else if jle (horizontalGap b1 b2) (jmul (averageHeight b1 b2) WIDE_SPACING_THRESHOLD)
        then ''  ''
      else if jle (horizontalGap b1 b2) (jmul (averageHeight b1 b2) (Fin 2)) then ''    ''
      else [tab])"
proof -
  have h: "safeHeight b1 b2 = averageHeight b1 b2"
    using sameLine_average [OF assms(5)] by (simp add: safeHeight_def)
  have s: "sameLine b1 b2"
    using assms(5) by (simp add: sameLine_def h)
  have ng: "\<not> jlt (horizontalGap b1 b2) (Fin 0)"
    using assms(6) by (cases "horizontalGap b1 b2") (auto simp add: jle_def)
  show ?thesis
    unfolding calculateSpacingBetweenWords_sameLine [OF assms(1-4)]
    by (simp only: s ng h if_True if_False)
qed

lemmas geometry_defs = averageHeight_def horizontalGap_def verticalGap_def centerDistance_def
  wordHeight_def wordCenterY_def wordLeft_def wordRight_def wordTop_def wordBottom_def
  safeHeight_def sameLine_def lineTop_def lineBottom_def lineHeight_def lineGap_def
  LINE_HEIGHT_TOLERANCE_def WORD_SPACING_THRESHOLD_def WIDE_SPACING_THRESHOLD_def
  PARAGRAPH_SPACING_THRESHOLD_def MIN_WORD_GAP_PIXELS_def jsub_def jle_def jgt_def

text \<open>
  Witness for C3. The scenario of C3: ``Hello'' at \<open>[0,0,50,0,50,20,0,20]\<close> and ``World'' at
  \<open>[60,0,110,0,110,20,60,20]\<close>. The gap is 10, the height 20, the gap sits on the boundary
  \<open>20 \<times> 0.5 = 10\<close>, which is exact, and the separator is one space.
\<close>

theorem same_line_spacing_table_witness:
  "jlt (centerDistance [0, 0, 50, 0, 50, 20, 0, 20] [60, 0, 110, 0, 110, 20, 60, 20])
       (jmul (averageHeight [0, 0, 50, 0, 50, 20, 0, 20] [60, 0, 110, 0, 110, 20, 60, 20])
             LINE_HEIGHT_TOLERANCE)
   \<and> horizontalGap [0, 0, 50, 0, 50, 20, 0, 20] [60, 0, 110, 0, 110, 20, 60, 20] = Fin 10
   \<and> averageHeight [0, 0, 50, 0, 50, 20, 0, 20] [60, 0, 110, 0, 110, 20, 60, 20] = Fin 20
   \<and> jmul (Fin 20) WORD_SPACING_THRESHOLD = Fin 10
   \<and> calculateSpacingBetweenWords
        \<lparr>wtext = ''Hello'', boundingBox = Some (finiteBox [0, 0, 50, 0, 50, 20, 0, 20]),
         confidence = None\<rparr>
        \<lparr>wtext = ''World'', boundingBox = Some (finiteBox [60, 0, 110, 0, 110, 20, 60, 20]),
         confidence = None\<rparr> = '' ''"
proof -
  let ?b1 = "[0, 0, 50, 0, 50, 20, 0, 20] :: real list"
  let ?b2 = "[60, 0, 110, 0, 110, 20, 60, 20] :: real list"
  have g: "horizontalGap ?b1 ?b2 = Fin 10" by (simp add: geometry_defs double_eval)
  have h: "averageHeight ?b1 ?b2 = Fin 20" by (simp add: geometry_defs double_eval)
  have d: "centerDistance ?b1 ?b2 = Fin 0" by (simp add: geometry_defs double_eval)
  have t: "jmul (Fin 20) WORD_SPACING_THRESHOLD = Fin 10" by (simp add: geometry_defs double_eval)
  have t7: "jmul (Fin 20) LINE_HEIGHT_TOLERANCE = Fin 14" by (simp add: geometry_defs double_eval)
  have c: "jlt (centerDistance ?b1 ?b2) (jmul (averageHeight ?b1 ?b2) LINE_HEIGHT_TOLERANCE)"
    by (simp add: d h t7)
  have p: "jle (Fin 0) (horizontalGap ?b1 ?b2)" by (simp add: g jle_def)
  show ?thesis
    using same_line_spacing_table [of _ ?b1 _ ?b2, OF _ _ _ _ c p] c
    by (simp add: g h t MIN_WORD_GAP_PIXELS_def jle_def)
qed


lemma eight: "8 \<le> length [a, b, c, d, e, f, g, h]"
  by simp

text \<open>
  C3 as stated fails where a threshold is not a double. A word ends at 2.2, the next starts
  at 13, both 9 high on one line: the gap of the two doubles is below \<open>1.2 \<times> 9\<close> and above
  \<open>0.5 \<times> 9\<close>, which is the row of two spaces. The classifier computes the gap as 10.8,
  the threshold \<open>9 * 1.2\<close> as 10.799999999999999, and returns four spaces.
\<close>

theorem boundary_rounding_counterexample:
  "toDouble (22 / 10) = Fin (2476979795053773 / 2 ^ 50)
   \<and> (0 :: real) < (7 / 10) * 9
   \<and> (5 / 10) * 9 < (13 - 2476979795053773 / 2 ^ 50 :: real)
   \<and> (13 - 2476979795053773 / 2 ^ 50 :: real) \<le> (12 / 10) * 9
   \<and> calculateSpacingBetweenWords
        \<lparr>wtext = ''a'',
         boundingBox = Some (finiteBox [0, 0, 2476979795053773 / 2 ^ 50, 0,
                                        2476979795053773 / 2 ^ 50, 9, 0, 9]),
         confidence = None\<rparr>
        \<lparr>wtext = ''b'', boundingBox = Some (finiteBox [13, 0, 14, 0, 14, 9, 13, 9]),
         confidence = None\<rparr> = ''    ''"
proof -
  let ?b1 = "[0, 0, 2476979795053773 / 2 ^ 50, 0, 2476979795053773 / 2 ^ 50, 9, 0, 9] :: real list"
  let ?b2 = "[13, 0, 14, 0, 14, 9, 13, 9] :: real list"
  have l: "toDouble (22 / 10) = Fin (2476979795053773 / 2 ^ 50)"
    by (simp add: double_eval)
  have g: "horizontalGap ?b1 ?b2 = Fin (3039929748475085 / 2 ^ 48)"
    by (simp add: geometry_defs double_eval)
  have h: "safeHeight ?b1 ?b2 = Fin 9"
    by (simp add: geometry_defs double_eval)
  have d: "centerDistance ?b1 ?b2 = Fin 0"
    by (simp add: geometry_defs double_eval)
  have t7: "jmul (Fin 9) LINE_HEIGHT_TOLERANCE = Fin (7093169413108531 / 2 ^ 50)"
    by (simp add: geometry_defs double_eval)
  have t5: "jmul (Fin 9) WORD_SPACING_THRESHOLD = Fin (9 / 2)"
    by (simp add: geometry_defs double_eval)
  have t12: "jmul (Fin 9) WIDE_SPACING_THRESHOLD = Fin (6079859496950169 / 2 ^ 49)"
    by (simp add: geometry_defs double_eval)
  have t2: "jmul (Fin 9) (Fin 2) = Fin 18"
    by (simp add: double_eval)
  have s: "sameLine ?b1 ?b2"
    unfolding sameLine_def h d t7 by simp
  have c: "calculateSpacingBetweenWords
        \<lparr>wtext = ''a'', boundingBox = Some (finiteBox ?b1), confidence = None\<rparr>
        \<lparr>wtext = ''b'', boundingBox = Some (finiteBox ?b2), confidence = None\<rparr> = ''    ''"
    unfolding calculateSpacingBetweenWords_sameLine [of _ ?b1 _ ?b2, OF word.select_convs(2)
        word.select_convs(2) eight eight] g h t5 t12 t2 MIN_WORD_GAP_PIXELS_def
    using s by (simp add: jle_def)
  have r: "(0 :: real) < (7 / 10) * 9" "(5 / 10) * 9 < (13 - 2476979795053773 / 2 ^ 50 :: real)"
    "(13 - 2476979795053773 / 2 ^ 50 :: real) \<le> (12 / 10) * 9"
    by simp_all
  show ?thesis
    using l c r by (simp only: simp_thms)
qed

text \<open>
  C7 as stated fails: a word that starts the next line lies left of the end of the previous
  word, so the horizontal gap is negative, and the classifier returns a line break.
\<close>

theorem negative_gap_other_line_counterexample:
  "jlt (horizontalGap [100, 0, 150, 0, 150, 20, 100, 20] [0, 30, 50, 30, 50, 50, 0, 50]) (Fin 0)
   \<and> calculateSpacingBetweenWords
        \<lparr>wtext = ''end'', boundingBox = Some (finiteBox [100, 0, 150, 0, 150, 20, 100, 20]),
         confidence = None\<rparr>
        \<lparr>wtext = ''Next'', boundingBox = Some (finiteBox [0, 30, 50, 30, 50, 50, 0, 50]),
         confidence = None\<rparr> = [newline]"
proof -
  let ?b1 = "[100, 0, 150, 0, 150, 20, 100, 20] :: real list"
  let ?b2 = "[0, 30, 50, 30, 50, 50, 0, 50] :: real list"
  have g: "horizontalGap ?b1 ?b2 = Fin (- 150)"
    by (simp add: geometry_defs double_eval)
  have v: "verticalGap ?b1 ?b2 = Fin 10"
    by (simp add: geometry_defs double_eval)
  have h: "safeHeight ?b1 ?b2 = Fin 20"
    by (simp add: geometry_defs double_eval)
  have d: "centerDistance ?b1 ?b2 = Fin 30"
    by (simp add: geometry_defs double_eval)
  have t7: "jmul (Fin 20) LINE_HEIGHT_TOLERANCE = Fin 14"
    by (simp add: geometry_defs double_eval)
  have t3: "jmul (Fin 20) (toDouble (3 / 10)) = Fin 6"
    by (simp add: double_eval)
  have t12: "jmul (Fin 20) (toDouble (12 / 10)) = Fin 24"
    by (simp add: double_eval)
  have s: "\<not> sameLine ?b1 ?b2"
    unfolding sameLine_def h d t7 by simp
  have c: "calculateSpacingBetweenWords
        \<lparr>wtext = ''end'', boundingBox = Some (finiteBox ?b1), confidence = None\<rparr>
        \<lparr>wtext = ''Next'', boundingBox = Some (finiteBox ?b2), confidence = None\<rparr> = [newline]"
    unfolding calculateSpacingBetweenWords_sameLine [of _ ?b1 _ ?b2, OF word.select_convs(2)
        word.select_convs(2) eight eight] g v h t3 t12
    using s by (simp add: jle_def)
  have n: "jlt (horizontalGap ?b1 ?b2) (Fin 0)"
    unfolding g by simp
  show ?thesis
    using c n by (simp only: simp_thms)
qed

text \<open>
  C7, amended. Two words that the classifier puts on the same line (centre distance below 0.7
  times the average height, the height taken as 12 where the average is not positive) and
  whose horizontal gap is negative get no separator.
\<close>

theorem negative_gap_same_line:
  assumes "boundingBox word1 = Some (finiteBox b1)" "boundingBox word2 = Some (finiteBox b2)"
    and "8 \<le> length b1" "8 \<le> length b2"
    and "sameLine b1 b2"
    and "jlt (horizontalGap b1 b2) (Fin 0)"
  shows "calculateSpacingBetweenWords word1 word2 = []"
  unfolding calculateSpacingBetweenWords_sameLine [OF assms(1-4)]
  using assms(5,6) by simp

text \<open>
  Witness for C7. Two overlapping boxes on one line.
\<close>

theorem negative_gap_same_line_witness:
  "sameLine [0, 0, 50, 0, 50, 20, 0, 20] [45, 0, 95, 0, 95, 20, 45, 20]
   \<and> jlt (horizontalGap [0, 0, 50, 0, 50, 20, 0, 20] [45, 0, 95, 0, 95, 20, 45, 20]) (Fin 0)
   \<and> calculateSpacingBetweenWords
        \<lparr>wtext = ''over'', boundingBox = Some (finiteBox [0, 0, 50, 0, 50, 20, 0, 20]),
         confidence = None\<rparr>
        \<lparr>wtext = ''lap'', boundingBox = Some (finiteBox [45, 0, 95, 0, 95, 20, 45, 20]),
         confidence = None\<rparr> = []"
proof -
  let ?b1 = "[0, 0, 50, 0, 50, 20, 0, 20] :: real list"
  let ?b2 = "[45, 0, 95, 0, 95, 20, 45, 20] :: real list"
  have h: "safeHeight ?b1 ?b2 = Fin 20"
    by (simp add: geometry_defs double_eval)
  have d: "centerDistance ?b1 ?b2 = Fin 0"
    by (simp add: geometry_defs double_eval)
  have t7: "jmul (Fin 20) LINE_HEIGHT_TOLERANCE = Fin 14"
    by (simp add: geometry_defs double_eval)
  have s: "sameLine ?b1 ?b2"
    unfolding sameLine_def h d t7 by simp
  have g: "jlt (horizontalGap ?b1 ?b2) (Fin 0)"
    by (simp add: geometry_defs double_eval)
  show ?thesis
    using negative_gap_same_line [of _ ?b1 _ ?b2, OF _ _ _ _ s g] s g by simp
qed

text \<open>
  C6 as stated fails on line pairs: two lines 2 pixels apart, the first 20 pixels high, are
  within 0.3 times the height, and \<open>calculateSpacingBetweenLines\<close> returns a newline, not
  a space.
\<close>

theorem close_lines_counterexample:
  "lineTop [0, 22, 100, 22, 100, 42, 0, 42] - lineBottom [0, 0, 100, 0, 100, 20, 0, 20]
     \<le> (3 / 10) * (lineBottom [0, 0, 100, 0, 100, 20, 0, 20] - lineTop [0, 0, 100, 0, 100, 20, 0, 20])
   \<and> calculateSpacingBetweenLines
        \<lparr>words = None, lineBox = Some (finiteBox [0, 0, 100, 0, 100, 20, 0, 20])\<rparr>
        \<lparr>words = None, lineBox = Some (finiteBox [0, 22, 100, 22, 100, 42, 0, 42])\<rparr>
       = Inr [newline]"
proof -
  let ?c1 = "[0, 0, 100, 0, 100, 20, 0, 20] :: real list"
  let ?c2 = "[0, 22, 100, 22, 100, 42, 0, 42] :: real list"
  have g: "lineGap ?c1 ?c2 = Fin 2"
    by (simp add: geometry_defs double_eval)
  have h: "lineHeight ?c1 = Fin 20"
    by (simp add: geometry_defs double_eval)
  have t3: "jmul (Fin 20) (toDouble (3 / 10)) = Fin 6"
    by (simp add: double_eval)
  have c: "calculateSpacingBetweenLines
        \<lparr>words = None, lineBox = Some (finiteBox ?c1)\<rparr>
        \<lparr>words = None, lineBox = Some (finiteBox ?c2)\<rparr> = Inr [newline]"
    unfolding calculateSpacingBetweenLines_finite [of _ ?c1 _ ?c2, OF line.select_convs(2)
        line.select_convs(2) eight eight] g h t3
    by (simp add: jle_def)
  have r: "lineTop ?c2 - lineBottom ?c1 \<le> (3 / 10) * (lineBottom ?c1 - lineTop ?c1)"
    by (simp add: lineTop_def lineBottom_def)
  show ?thesis
    using c r by (simp only: simp_thms)
qed

text \<open>
  C6, amended. For two words that the classifier does not put on the same line, with \<open>g\<close> the
  absolute vertical gap and \<open>h\<close> the average height (12 where the average is not positive),
  every quantity and every product as the classifier computes it in double precision: one
  space where \<open>g\<close> is at most \<open>h\<close> times 0.3, one newline up to \<open>h\<close> times 1.2, two newlines
  up to \<open>h\<close> times \<open>PARAGRAPH_SPACING_THRESHOLD\<close> (2.0), three newlines above. For two
  lines, with \<open>g\<close> the signed gap from the bottom of the first to the top of the second and
  \<open>h\<close> the height of the first: one newline where \<open>g\<close> is at most \<open>h\<close> times 0.3 or at
  most \<open>h\<close> times 1.0, two newlines up to \<open>h\<close> times 2.0, three newlines above; a line pair
  never gets a space.
\<close>

theorem different_line_spacing_tables:
  assumes "boundingBox word1 = Some (finiteBox b1)" "boundingBox word2 = Some (finiteBox b2)"
    and "8 \<le> length b1" "8 \<le> length b2"
    and "\<not> sameLine b1 b2"
    and "lineBox line1 = Some (finiteBox c1)" "lineBox line2 = Some (finiteBox c2)"
    and "8 \<le> length c1" "8 \<le> length c2"
  shows "calculateSpacingBetweenWords word1 word2 =
           (if jle (jabs (verticalGap b1 b2)) (jmul (safeHeight b1 b2) (toDouble (3 / 10)))
              then '' ''
            else if jle (jabs (verticalGap b1 b2)) (jmul (safeHeight b1 b2) (toDouble (12 / 10)))
              then [newline]
            else if jle (jabs (verticalGap b1 b2))
                      (jmul (safeHeight b1 b2) PARAGRAPH_SPACING_THRESHOLD)
              then [newline, newline]
            else [newline, newline, newline])
       \<and> calculateSpacingBetweenLines line1 line2 =
           Inr (if jle (lineGap c1 c2) (jmul (lineHeight c1) (toDouble (3 / 10)))
                   \<or> jle (lineGap c1 c2) (jmul (lineHeight c1) (Fin 1))
                  then [newline]
                else if jle (lineGap c1 c2) (jmul (lineHeight c1) (Fin 2))
                  then [newline, newline]
                else [newline, newline, newline])"
proof
  show "calculateSpacingBetweenWords word1 word2 =
           (if jle (jabs (verticalGap b1 b2)) (jmul (safeHeight b1 b2) (toDouble (3 / 10)))
              then '' ''
            else if jle (jabs (verticalGap b1 b2)) (jmul (safeHeight b1 b2) (toDouble (12 / 10)))
              then [newline]
            else if jle (jabs (verticalGap b1 b2))
                      (jmul (safeHeight b1 b2) PARAGRAPH_SPACING_THRESHOLD)
              then [newline, newline]
            else [newline, newline, newline])"
    unfolding calculateSpacingBetweenWords_sameLine [OF assms(1-4)]
    using assms(5) by (simp only: if_False)
next
  show "calculateSpacingBetweenLines line1 line2 =
           Inr (if jle (lineGap c1 c2) (jmul (lineHeight c1) (toDouble (3 / 10)))
                   \<or> jle (lineGap c1 c2) (jmul (lineHeight c1) (Fin 1))
                  then [newline]
                else if jle (lineGap c1 c2) (jmul (lineHeight c1) (Fin 2))
                  then [newline, newline]
                else [newline, newline, newline])"
    unfolding calculateSpacingBetweenLines_finite [OF assms(6-9)]
    by simp
qed

text \<open>
  Witness for C6. Two words and two lines 30 pixels apart, 20 pixels high: a paragraph break in both tables.
\<close>

theorem different_line_spacing_tables_witness:
  "\<not> sameLine [0, 0, 50, 0, 50, 20, 0, 20] [0, 50, 50, 50, 50, 70, 0, 70]
   \<and> calculateSpacingBetweenWords
        \<lparr>wtext = ''one'', boundingBox = Some (finiteBox [0, 0, 50, 0, 50, 20, 0, 20]),
         confidence = None\<rparr>
        \<lparr>wtext = ''two'', boundingBox = Some (finiteBox [0, 50, 50, 50, 50, 70, 0, 70]),
         confidence = None\<rparr> = [newline, newline]
   \<and> calculateSpacingBetweenLines
        \<lparr>words = None, lineBox = Some (finiteBox [0, 0, 100, 0, 100, 20, 0, 20])\<rparr>
        \<lparr>words = None, lineBox = Some (finiteBox [0, 50, 100, 50, 100, 70, 0, 70])\<rparr>
       = Inr [newline, newline]"
proof -
  let ?b1 = "[0, 0, 50, 0, 50, 20, 0, 20] :: real list"
  let ?b2 = "[0, 50, 50, 50, 50, 70, 0, 70] :: real list"
  let ?c1 = "[0, 0, 100, 0, 100, 20, 0, 20] :: real list"
  let ?c2 = "[0, 50, 100, 50, 100, 70, 0, 70] :: real list"
  let ?w1 = "\<lparr>wtext = ''one'', boundingBox = Some (finiteBox ?b1), confidence = None\<rparr>"
  let ?w2 = "\<lparr>wtext = ''two'', boundingBox = Some (finiteBox ?b2), confidence = None\<rparr>"
  let ?l1 = "\<lparr>words = None, lineBox = Some (finiteBox ?c1)\<rparr>"
  let ?l2 = "\<lparr>words = None, lineBox = Some (finiteBox ?c2)\<rparr>"
  have h: "safeHeight ?b1 ?b2 = Fin 20"
    by (simp add: geometry_defs double_eval)
  have d: "centerDistance ?b1 ?b2 = Fin 50"
    by (simp add: geometry_defs double_eval)
  have v: "verticalGap ?b1 ?b2 = Fin 30"
    by (simp add: geometry_defs double_eval)
  have t7: "jmul (Fin 20) LINE_HEIGHT_TOLERANCE = Fin 14"
    by (simp add: geometry_defs double_eval)
  have t3: "jmul (Fin 20) (toDouble (3 / 10)) = Fin 6"
    by (simp add: double_eval)
  have t12: "jmul (Fin 20) (toDouble (12 / 10)) = Fin 24"
    by (simp add: double_eval)
  have t1: "jmul (Fin 20) (Fin 1) = Fin 20"
    by (simp add: double_eval)
  have t2: "jmul (Fin 20) (Fin 2) = Fin 40"
    by (simp add: double_eval)
  have lg: "lineGap ?c1 ?c2 = Fin 30"
    by (simp add: geometry_defs double_eval)
  have lh: "lineHeight ?c1 = Fin 20"
    by (simp add: geometry_defs double_eval)
  have s: "\<not> sameLine ?b1 ?b2"
    unfolding sameLine_def h d t7 by simp
  have t: "calculateSpacingBetweenWords ?w1 ?w2 = [newline, newline]
      \<and> calculateSpacingBetweenLines ?l1 ?l2 = Inr [newline, newline]"
    using different_line_spacing_tables [of ?w1 ?b1 ?w2 ?b2 ?l1 ?c1 ?l2 ?c2,
        OF word.select_convs(2) word.select_convs(2) eight eight s line.select_convs(2)
        line.select_convs(2) eight eight]
    unfolding h v t3 t12 t2 t1 lg lh PARAGRAPH_SPACING_THRESHOLD_def
    by (simp add: jle_def double_eval)
  show ?thesis
    using t s by (simp only: simp_thms)
qed

text \<open>
  The rows compare rounded values. Two words 4.5 high, from 4.7 to 9.2 and from 14.6 to 19.1:
  in exact arithmetic the gap 5.4 is 1.2 times the height, the row of one newline; the
  classifier computes \<open>4.5 * 1.2\<close> as 5.3999999999999995, below the gap, and returns two.
\<close>

lemma word_break_rounding_example:
  "toDouble (47 / 10) = Fin (5291729562160333 / 2 ^ 50)
   \<and> toDouble (92 / 10) = Fin (2589569785738035 / 2 ^ 48)
   \<and> toDouble (146 / 10) = Fin (8219069319951155 / 2 ^ 49)
   \<and> toDouble (191 / 10) = Fin (2688086027586765 / 2 ^ 47)
   \<and> calculateSpacingBetweenWords
        \<lparr>wtext = ''a'',
         boundingBox = Some (finiteBox [0, 5291729562160333 / 2 ^ 50, 10, 5291729562160333 / 2 ^ 50,
                                        10, 2589569785738035 / 2 ^ 48, 0, 2589569785738035 / 2 ^ 48]),
         confidence = None\<rparr>
        \<lparr>wtext = ''b'',
         boundingBox = Some (finiteBox [0, 8219069319951155 / 2 ^ 49, 10, 8219069319951155 / 2 ^ 49,
                                        10, 2688086027586765 / 2 ^ 47, 0, 2688086027586765 / 2 ^ 47]),
         confidence = None\<rparr> = [newline, newline]"
proof -
  let ?b1 = "[0, 5291729562160333 / 2 ^ 50, 10, 5291729562160333 / 2 ^ 50,
              10, 2589569785738035 / 2 ^ 48, 0, 2589569785738035 / 2 ^ 48] :: real list"
  let ?b2 = "[0, 8219069319951155 / 2 ^ 49, 10, 8219069319951155 / 2 ^ 49,
              10, 2688086027586765 / 2 ^ 47, 0, 2688086027586765 / 2 ^ 47] :: real list"
  have l: "toDouble (47 / 10) = Fin (5291729562160333 / 2 ^ 50)"
    "toDouble (92 / 10) = Fin (2589569785738035 / 2 ^ 48)"
    "toDouble (146 / 10) = Fin (8219069319951155 / 2 ^ 49)"
    "toDouble (191 / 10) = Fin (2688086027586765 / 2 ^ 47)"
    by (simp_all add: double_eval)
  have v: "verticalGap ?b1 ?b2 = Fin (3039929748475085 / 2 ^ 49)"
    by (simp add: geometry_defs double_eval)
  have h: "safeHeight ?b1 ?b2 = Fin (9 / 2)"
    by (simp add: geometry_defs double_eval)
  have d: "centerDistance ?b1 ?b2 = Fin (2786602269435495 / 2 ^ 48)"
    by (simp add: geometry_defs double_eval)
  have t7: "jmul (Fin (9 / 2)) LINE_HEIGHT_TOLERANCE = Fin (7093169413108531 / 2 ^ 51)"
    by (simp add: geometry_defs double_eval)
  have t3: "jmul (Fin (9 / 2)) (toDouble (3 / 10)) = Fin (6079859496950169 / 2 ^ 52)"
    by (simp add: double_eval)
  have t12: "jmul (Fin (9 / 2)) (toDouble (12 / 10)) = Fin (6079859496950169 / 2 ^ 50)"
    by (simp add: double_eval)
  have t2: "jmul (Fin (9 / 2)) PARAGRAPH_SPACING_THRESHOLD = Fin 9"
    by (simp add: geometry_defs double_eval)
  have s: "\<not> sameLine ?b1 ?b2"
    unfolding sameLine_def h d t7 by simp
  have c: "calculateSpacingBetweenWords
        \<lparr>wtext = ''a'', boundingBox = Some (finiteBox ?b1), confidence = None\<rparr>
        \<lparr>wtext = ''b'', boundingBox = Some (finiteBox ?b2), confidence = None\<rparr>
       = [newline, newline]"
    unfolding calculateSpacingBetweenWords_sameLine [of _ ?b1 _ ?b2, OF word.select_convs(2)
        word.select_convs(2) eight eight] v h t3 t12 t2
    using s by (simp add: jle_def)
  show ?thesis
    using l c by (simp only: simp_thms)
qed

text \<open>
  C8 as stated fails for non-finite geometry: a \<open>NaN\<close> coordinate raises no exception,
  every comparison with it is false, and the classifier returns three newlines, not a space.
\<close>

theorem non_finite_geometry_counterexample:
  "calculateSpacingBetweenWords
     \<lparr>wtext = ''Hello'',
      boundingBox = Some [Number (Fin 0), Number (Fin 0), Number (Fin 50), Number (Fin 0),
                          Number (Fin 50), Number (Fin 20), Number (Fin 0), Number (Fin 20)],
      confidence = None\<rparr>
     \<lparr>wtext = ''World'',
      boundingBox = Some [Number (Fin 60), Number NaN, Number (Fin 110), Number (Fin 0),
                          Number (Fin 110), Number (Fin 20), Number (Fin 60), Number (Fin 20)],
      confidence = None\<rparr> = [newline, newline, newline]"
  by (simp add: calculateSpacingBetweenWords_def wordSpacingBody_def entry_def Math_min2_def
      Math_max2_def jmin2_def jmax2_def jsub_def jle_def jgt_def Let_def jlt_NaN)

text \<open>
  C8, amended. The classifier returns exactly one space when either bounding box is missing
  or has fewer than 8 entries, and when the computation inside its \<open>try\<close> block throws; it
  returns a string in every case, so it never throws to its caller.
\<close>

theorem malformed_geometry_single_space:
  "(boundingBox word1 = None \<or> boundingBox word2 = None
      \<or> (\<exists>b. boundingBox word1 = Some b \<and> length b < 8)
      \<or> (\<exists>b. boundingBox word2 = Some b \<and> length b < 8)
      \<longrightarrow> calculateSpacingBetweenWords word1 word2 = '' '')
   \<and> (\<forall>b1 b2 e. boundingBox word1 = Some b1 \<and> boundingBox word2 = Some b2
          \<and> wordSpacingBody b1 b2 = Inl e
      \<longrightarrow> calculateSpacingBetweenWords word1 word2 = '' '')"
  by (auto simp add: calculateSpacingBetweenWords_def split: option.splits)

text \<open>
  Witness for C8. A missing box, a box of 4 numbers, and a box with an entry whose conversion throws.
\<close>

theorem malformed_geometry_single_space_witness:
  "calculateSpacingBetweenWords
     \<lparr>wtext = ''a'', boundingBox = None, confidence = None\<rparr>
     \<lparr>wtext = ''b'', boundingBox = Some (finiteBox [0, 0, 50, 0, 50, 20, 0, 20]),
      confidence = None\<rparr> = '' ''
   \<and> calculateSpacingBetweenWords
     \<lparr>wtext = ''a'', boundingBox = Some (finiteBox [0, 0, 50, 0]), confidence = None\<rparr>
     \<lparr>wtext = ''b'', boundingBox = Some (finiteBox [0, 0, 50, 0, 50, 20, 0, 20]),
      confidence = None\<rparr> = '' ''
   \<and> wordSpacingBody
        [Number (Fin 0), Unconvertible, Number (Fin 50), Number (Fin 0),
         Number (Fin 50), Number (Fin 20), Number (Fin 0), Number (Fin 20)]
        (finiteBox [60, 0, 110, 0, 110, 20, 60, 20]) = Inl TypeError
   \<and> calculateSpacingBetweenWords
     \<lparr>wtext = ''a'',
      boundingBox = Some [Number (Fin 0), Unconvertible, Number (Fin 50), Number (Fin 0),
                          Number (Fin 50), Number (Fin 20), Number (Fin 0), Number (Fin 20)],
      confidence = None\<rparr>
     \<lparr>wtext = ''b'', boundingBox = Some (finiteBox [60, 0, 110, 0, 110, 20, 60, 20]),
      confidence = None\<rparr> = '' ''"
proof -
  let ?bad = "[Number (Fin 0), Unconvertible, Number (Fin 50), Number (Fin 0),
         Number (Fin 50), Number (Fin 20), Number (Fin 0), Number (Fin 20)]"
  let ?w1 = "\<lparr>wtext = ''a'', boundingBox = None, confidence = None\<rparr>"
  let ?w2 = "\<lparr>wtext = ''a'', boundingBox = Some (finiteBox [0, 0, 50, 0]), confidence = None\<rparr>"
  let ?w3 = "\<lparr>wtext = ''a'', boundingBox = Some ?bad, confidence = None\<rparr>"
  let ?b = "\<lparr>wtext = ''b'', boundingBox = Some (finiteBox [0, 0, 50, 0, 50, 20, 0, 20]),
      confidence = None\<rparr>"
  let ?c = "\<lparr>wtext = ''b'', boundingBox = Some (finiteBox [60, 0, 110, 0, 110, 20, 60, 20]),
      confidence = None\<rparr>"
  have e: "wordSpacingBody ?bad (finiteBox [60, 0, 110, 0, 110, 20, 60, 20]) = Inl TypeError"
    by (simp add: wordSpacingBody_def entry_def finiteBox_def Math_min2_def Math_max2_def)
  show ?thesis
    using malformed_geometry_single_space [of ?w1 ?b]
      malformed_geometry_single_space [of ?w2 ?b]
      malformed_geometry_single_space [of ?w3 ?c] e
    by (simp add: finiteBox_def)
qed

section \<open>Properties of the polling loop\<close>

lemma pollLoop_trace_prefix:
  "\<exists>more. snd (pollLoop g m a t) = t @ more"
proof (induction g m a t rule: pollLoop.induct)
  case (1 g m a t)
  show ?case
  proof (cases "g (Suc a)")
    case (Inl e)
    then show ?thesis by (subst pollLoop.simps) simp
  next
    case (Inr r)
    show ?thesis
    proof (cases "m \<le> Suc a")
      case True
      with Inr show ?thesis by (subst pollLoop.simps) simp
    next
      case False
      show ?thesis
      proof (cases r)
        case NotStarted
        with 1(1) [OF Inr False NotStarted] Inr False show ?thesis
          by (subst pollLoop.simps) auto
      next
        case Running
        with 1(2) [OF Inr False Running] Inr False show ?thesis
          by (subst pollLoop.simps) auto
      next
        case Failed
        with Inr False show ?thesis by (subst pollLoop.simps) simp
      next
        case (Succeeded x)
        with Inr False show ?thesis by (subst pollLoop.simps) simp
      qed
    qed
  qed
qed

lemma pollLoop_poll_bound:
  "pollCount (snd (pollLoop g m a t)) \<le> pollCount t + max 1 (m - a)"
proof (induction g m a t rule: pollLoop.induct)
  case (1 g m a t)
  show ?case
  proof (cases "g (Suc a)")
    case (Inl e)
    then show ?thesis by (subst pollLoop.simps) (simp add: pollCount_def)
  next
    case (Inr r)
    show ?thesis
    proof (cases "m \<le> Suc a")
      case True
      with Inr show ?thesis by (subst pollLoop.simps) (simp add: pollCount_def)
    next
      case False
      show ?thesis
      proof (cases r)
        case NotStarted
        with 1(1) [OF Inr False NotStarted] Inr False show ?thesis
          by (subst pollLoop.simps) (simp add: pollCount_def)
      next
        case Running
        with 1(2) [OF Inr False Running] Inr False show ?thesis
          by (subst pollLoop.simps) (simp add: pollCount_def)
      next
        case Failed
        with Inr False show ?thesis by (subst pollLoop.simps) (simp add: pollCount_def)
      next
        case (Succeeded x)
        with Inr False show ?thesis by (subst pollLoop.simps) (simp add: pollCount_def)
      qed
    qed
  qed
qed

lemma pollReadResult_at_most_30_polls:
  "pollCount (snd (pollReadResult g)) \<le> 30"
  using pollLoop_poll_bound [of g TIMEOUT_SECONDS 0 "[]"]
  by (simp add: pollReadResult_def TIMEOUT_SECONDS_def pollCount_def)

lemma pollLoop_sleep_per_poll:
  "sleepCount (snd (pollLoop g m a t)) - sleepCount t = pollCount (snd (pollLoop g m a t)) - pollCount t"
proof (induction g m a t rule: pollLoop.induct)
  case (1 g m a t)
  show ?case
  proof (cases "g (Suc a)")
    case (Inl e)
    then show ?thesis by (subst (1 2) pollLoop.simps) (simp add: pollCount_def sleepCount_def)
  next
    case (Inr r)
    show ?thesis
    proof (cases "m \<le> Suc a")
      case True
      with Inr show ?thesis by (subst (1 2) pollLoop.simps) (simp add: pollCount_def sleepCount_def)
    next
      case False
      show ?thesis
      proof (cases r)
        case NotStarted
        have "\<exists>more. snd (pollLoop g m (Suc a) (t @ [Sleep, Poll])) = (t @ [Sleep, Poll]) @ more"
          by (rule pollLoop_trace_prefix)
        then obtain more where
          m: "snd (pollLoop g m (Suc a) (t @ [Sleep, Poll])) = (t @ [Sleep, Poll]) @ more" ..
        from 1(1) [OF Inr False NotStarted] Inr False NotStarted m show ?thesis
          by (subst (1 2) pollLoop.simps) (simp add: pollCount_def sleepCount_def)
      next
        case Running
        have "\<exists>more. snd (pollLoop g m (Suc a) (t @ [Sleep, Poll])) = (t @ [Sleep, Poll]) @ more"
          by (rule pollLoop_trace_prefix)
        then obtain more where
          m: "snd (pollLoop g m (Suc a) (t @ [Sleep, Poll])) = (t @ [Sleep, Poll]) @ more" ..
        from 1(2) [OF Inr False Running] Inr False Running m show ?thesis
          by (subst (1 2) pollLoop.simps) (simp add: pollCount_def sleepCount_def)
      next
        case Failed
        with Inr False show ?thesis by (subst (1 2) pollLoop.simps) (simp add: pollCount_def sleepCount_def)
      next
        case (Succeeded x)
        with Inr False show ?thesis by (subst (1 2) pollLoop.simps) (simp add: pollCount_def sleepCount_def)
      qed
    qed
  qed
qed

lemma pollLoop_succeeds_after_three_running:
  "pollReadResult (\<lambda>n. if n < 4 then Inr Running else Inr (Succeeded r)) =
     (Inr r, [Sleep, Poll, Sleep, Poll, Sleep, Poll, Sleep, Poll])
   \<and> interveningSleeps [Sleep, Poll, Sleep, Poll, Sleep, Poll, Sleep, Poll] = 3"
  by (simp add: pollReadResult_def TIMEOUT_SECONDS_def interveningSleeps_def sleepCount_def)

lemma pollLoop_last_attempt_is_timeout:
  assumes "a < m" "\<And>k. a < k \<Longrightarrow> k < m \<Longrightarrow> g k = Inr NotStarted \<or> g k = Inr Running"
    and "g m = Inr r"
  shows "fst (pollLoop g m a t) = Inl (Error ''Azure OCR operation timeout'')"
  using assms
proof (induction g m a t rule: pollLoop.induct)
  case (1 g m a t)
  show ?case
  proof (cases "m \<le> Suc a")
    case True
    with 1(3) have "Suc a = m" by simp
    with 1(5) True show ?thesis by (subst pollLoop.simps) simp
  next
    case False
    then have lt: "Suc a < m" by simp
    from 1(4) [of "Suc a"] lt
    consider "g (Suc a) = Inr NotStarted" | "g (Suc a) = Inr Running" by auto
    then show ?thesis
    proof cases
      case 1
      have "fst (pollLoop g m (Suc a) (t @ [Sleep, Poll])) = Inl (Error ''Azure OCR operation timeout'')"
        using "1.IH"(1) [OF 1 False refl lt] "1.prems"(2,3) by simp
      with 1 False show ?thesis by (subst pollLoop.simps) simp
    next
      case 2
      have "fst (pollLoop g m (Suc a) (t @ [Sleep, Poll])) = Inl (Error ''Azure OCR operation timeout'')"
        using "1.IH"(2) [OF 2 False refl lt] "1.prems"(2,3) by simp
      with 2 False show ?thesis by (subst pollLoop.simps) simp
    qed
  qed
qed

text \<open>
  C4. The loop makes at most 30 polls, one behind each suspension, and a run of three
  \<open>running\<close> answers and one \<open>succeeded\<close> ends in success with three suspensions between
  the polls (the lemmas above). But the count is tested before the status: when the answer
  to the 30th poll is \<open>succeeded\<close>, the loop ends in the timeout error and the pages are
  lost.
\<close>

theorem success_on_last_attempt_times_out:
  "fst (pollReadResult (\<lambda>n. if n < 30 then Inr Running else Inr (Succeeded readResults)))
     = Inl (Error ''Azure OCR operation timeout'')"
  unfolding pollReadResult_def TIMEOUT_SECONDS_def
  by (rule pollLoop_last_attempt_is_timeout) simp_all



section \<open>Properties of the existence probe\<close>

text \<open>
  C10. For a file that can be read, \<open>hasText\<close> holds exactly when the six indicator patterns
  have more than 5 matches in its bytes between them: 6 or more matches give true, no match
  gives false. A file that cannot be read gives false.
\<close>

theorem probe_threshold:
  "(hasText (checkPDFTextWithPdfParse (Some pdfString)) \<longleftrightarrow> 5 < textIndicatorCount pdfString)
   \<and> (6 \<le> textIndicatorCount pdfString \<longrightarrow> hasText (checkPDFTextWithPdfParse (Some pdfString)))
   \<and> (textIndicatorCount pdfString = 0 \<longrightarrow> \<not> hasText (checkPDFTextWithPdfParse (Some pdfString)))
   \<and> \<not> hasText (checkPDFTextWithPdfParse None)"
  by (simp add: checkPDFTextWithPdfParse_def Let_def)

lemma six_indicators:
  "textIndicatorCount
     (''<< /Type /Font /Subtype /Type1 >> << /Type/Font /Subtype /TrueType >>'' @ [newline]
      @ ''BT /F1 12 Tf (Hello) Tj'' @ [newline] @ ''[(World)] TJ'' @ [newline] @ ''ET'') = 6"
  by code_simp

lemma five_indicators:
  "textIndicatorCount
     (''<< /Type /Font /Subtype /Type1 >> << /Type/Font /Subtype /TrueType >>'' @ [newline]
      @ ''BT /F1 12 Tf (Hello) Tj ET'') = 5"
  by code_simp

lemma no_indicators:
  "textIndicatorCount (''%PDF-1.4'' @ [newline] @ ''1 0 obj << /Type /XObject /Subtype /Image >>'') = 0"
  by code_simp

text \<open>
  Witness for C10. A document with 6 matches, one with 5, one with none.
\<close>

theorem probe_threshold_witness:
  "hasText (checkPDFTextWithPdfParse (Some
     (''<< /Type /Font /Subtype /Type1 >> << /Type/Font /Subtype /TrueType >>'' @ [newline]
      @ ''BT /F1 12 Tf (Hello) Tj'' @ [newline] @ ''[(World)] TJ'' @ [newline] @ ''ET'')))
   \<and> \<not> hasText (checkPDFTextWithPdfParse (Some
     (''<< /Type /Font /Subtype /Type1 >> << /Type/Font /Subtype /TrueType >>'' @ [newline]
      @ ''BT /F1 12 Tf (Hello) Tj ET'')))
   \<and> \<not> hasText (checkPDFTextWithPdfParse (Some
     (''%PDF-1.4'' @ [newline] @ ''1 0 obj << /Type /XObject /Subtype /Image >>'')))"
  using probe_threshold [of "''<< /Type /Font /Subtype /Type1 >> << /Type/Font /Subtype /TrueType >>'' @ [newline]
      @ ''BT /F1 12 Tf (Hello) Tj'' @ [newline] @ ''[(World)] TJ'' @ [newline] @ ''ET''"]
    probe_threshold [of "''<< /Type /Font /Subtype /Type1 >> << /Type/Font /Subtype /TrueType >>'' @ [newline]
      @ ''BT /F1 12 Tf (Hello) Tj ET''"]
    probe_threshold [of "''%PDF-1.4'' @ [newline] @ ''1 0 obj << /Type /XObject /Subtype /Image >>''"]
  unfolding six_indicators five_indicators no_indicators
  by simp

section \<open>Properties of the entry point\<close>

text \<open>
  C1 as stated fails: for a file of 30 000 000 bytes, above the limit, \<open>extractText\<close> returns
  the simulated result; it reports no error.
\<close>

theorem oversize_file_counterexample:
  "MAX_FILE_SIZE_BYTES < 30000000
   \<and> extractText (exampleEnvironment 30000000 True) ''scan.png'' ''image/png''
       = Inr (simulateOCR (exampleEnvironment 30000000 True) ''scan.png'' ''image/png'')
   \<and> ocrEngine (simulateOCR (exampleEnvironment 30000000 True) ''scan.png'' ''image/png'')
       = ''Simulation''"
  by (simp add: extractText_def extractTextBody_def exampleEnvironment_def
      MAX_FILE_SIZE_BYTES_def simulateOCR_def Let_def)

text \<open>
  C1, amended. \<open>extractText\<close> returns a result for every path and MIME type; whatever its
  body throws is answered by the simulated result, and so are a file above the size limit and
  (with a configured client) a MIME type that is neither an image type nor PDF.
\<close>

theorem extractText_never_throws:
  "(\<exists>result. extractText env filePath mimetype = Inr result)
   \<and> (\<forall>e. extractTextBody env filePath mimetype = Inl e
        \<longrightarrow> extractText env filePath mimetype = Inr (simulateOCR env filePath mimetype))
   \<and> (filePath \<noteq> [] \<and> mimetype \<noteq> []
        \<and> (\<exists>fileSize. statSize env (fullPathOf env filePath) = Some fileSize
               \<and> MAX_FILE_SIZE_BYTES < fileSize)
        \<longrightarrow> extractText env filePath mimetype = Inr (simulateOCR env filePath mimetype))
   \<and> (filePath \<noteq> [] \<and> mimetype \<noteq> []
        \<and> (\<exists>fileSize. statSize env (fullPathOf env filePath) = Some fileSize
               \<and> fileSize \<le> MAX_FILE_SIZE_BYTES)
        \<and> clientConfigured env
        \<and> \<not> startsWith ''image/'' mimetype \<and> mimetype \<noteq> ''application/pdf''
        \<longrightarrow> extractText env filePath mimetype = Inr (simulateOCR env filePath mimetype))"
  by (auto simp add: extractText_def extractTextBody_def Let_def split: sum.splits)

text \<open>
  Witness for C1. A file above the limit, and a text file within it.
\<close>

theorem extractText_never_throws_witness:
  "extractText (exampleEnvironment 30000000 True) ''scan.png'' ''image/png''
     = Inr (simulateOCR (exampleEnvironment 30000000 True) ''scan.png'' ''image/png'')
   \<and> extractText (exampleEnvironment 1000 True) ''notes.txt'' ''text/plain''
     = Inr (simulateOCR (exampleEnvironment 1000 True) ''notes.txt'' ''text/plain'')
   \<and> extractTextBody (exampleEnvironment 1000 True) ''notes.txt'' ''text/plain''
     = Inl (Error ''Unsupported file type. Only images and PDFs are supported.'')"
  using extractText_never_throws [of "exampleEnvironment 30000000 True" "''scan.png''" "''image/png''"]
    extractText_never_throws [of "exampleEnvironment 1000 True" "''notes.txt''" "''text/plain''"]
  by (simp add: exampleEnvironment_def MAX_FILE_SIZE_BYTES_def startsWith_def extractTextBody_def)

section \<open>Properties of the page assembly\<close>

text \<open>
  The first pass keeps a word without a bounding box of 8 entries, and puts one space
  between it and its neighbour.
\<close>

lemma first_pass_keeps_boxless_word:
  "\<not> (hasBox w \<and> hasBox nextWord) \<Longrightarrow>
     processWordsWithSpacing (w # nextWord # ws) =
       wtext w @ '' '' @ processWordsWithSpacing (nextWord # ws)"
  by auto

text \<open>The second pass takes the words with a bounding box of 8 entries, and no other.\<close>

lemma collectWords_pageWords:
  "collectWords ls = map collectedWord (filter hasBox (pageWords ls))"
  unfolding collectWords_def pageWords_def
  by (induction ls) (auto split: option.splits)

text \<open>The three passes on a page whose title has no bounding box.\<close>

lemma titledPage_first_pass:
  "processLinesWithIntelligentSpacing titledPage = Inr (''Title'' @ [newline] @ ''abcd'')"
  by code_simp

lemma titledPage_collected:
  "collectWords titledPage =
     [collectedWord (boxed ''ab'' [0, 0, 50, 0, 50, 20, 0, 20]),
      collectedWord (boxed ''cd'' [45, 0, 95, 0, 95, 20, 45, 20])]"
  by (simp add: collectWords_def titledPage_def hasBox_def boxed_def unboxed_def finiteBox_def)

lemma titledPage_verdicts:
  "verdictOf compareByPosition (collectedWord (boxed ''ab'' [0, 0, 50, 0, 50, 20, 0, 20]))
     (collectedWord (boxed ''ab'' [0, 0, 50, 0, 50, 20, 0, 20])) = Some Same"
  "verdictOf compareByPosition (collectedWord (boxed ''ab'' [0, 0, 50, 0, 50, 20, 0, 20]))
     (collectedWord (boxed ''cd'' [45, 0, 95, 0, 95, 20, 45, 20])) = Some Before"
  "verdictOf compareByPosition (collectedWord (boxed ''cd'' [45, 0, 95, 0, 95, 20, 45, 20]))
     (collectedWord (boxed ''ab'' [0, 0, 50, 0, 50, 20, 0, 20])) = Some After"
  "verdictOf compareByPosition (collectedWord (boxed ''cd'' [45, 0, 95, 0, 95, 20, 45, 20]))
     (collectedWord (boxed ''cd'' [45, 0, 95, 0, 95, 20, 45, 20])) = Some Same"
  by code_simp+

lemma titledPage_sorted:
  "arraySort compareByPosition (collectWords titledPage) =
     Some [collectedWord (boxed ''ab'' [0, 0, 50, 0, 50, 20, 0, 20]),
           collectedWord (boxed ''cd'' [45, 0, 95, 0, 95, 20, 45, 20])]"
  unfolding titledPage_collected
  by (simp add: arraySort_def consistentComparator_def titledPage_verdicts)

lemma titledPage_joined:
  "joinWithSpacing [collectedWord (boxed ''ab'' [0, 0, 50, 0, 50, 20, 0, 20]),
                    collectedWord (boxed ''cd'' [45, 0, 95, 0, 95, 20, 45, 20])] = ''abcd''"
  by code_simp

lemma titledPage_second_pass:
  "applyForcedSpacingToCompactText titledPage = Some ''abcd''"
  unfolding applyForcedSpacingToCompactText_def titledPage_sorted option.case titledPage_joined
  by (rule refl)

lemma abcd_third_pass: "addBasicSpacingToText ''abcd'' = ''abcd''"
  by code_simp

text \<open>
  C9. The claim has the second pass sort every word of the page; the code collects only the
  words with a bounding box of 8 entries. A page whose title has no bounding box, above two
  overlapping words: the first pass keeps the title and joins the two words without a
  space, the escalation is triggered, and the second pass replaces the text by one without
  the title.
\<close>

theorem boxless_word_dropped:
  "pageWords titledPage =
     [unboxed ''Title'', boxed ''ab'' [0, 0, 50, 0, 50, 20, 0, 20],
      boxed ''cd'' [45, 0, 95, 0, 95, 20, 45, 20]]
   \<and> processLinesWithIntelligentSpacing titledPage = Inr (''Title'' @ [newline] @ ''abcd'')
   \<and> someLineHasSeveralWords titledPage
   \<and> map wtext (collectWords titledPage) = [''ab'', ''cd'']
   \<and> applyForcedSpacingToCompactText titledPage = Some ''abcd''
   \<and> pageTextWithSpacing titledPage = Some (Inr ''abcd'')"
proof -
  have w: "pageWords titledPage =
     [unboxed ''Title'', boxed ''ab'' [0, 0, 50, 0, 50, 20, 0, 20],
      boxed ''cd'' [45, 0, 95, 0, 95, 20, 45, 20]]"
    by (simp add: pageWords_def titledPage_def)
  have s: "someLineHasSeveralWords titledPage"
    by (simp add: someLineHasSeveralWords_def titledPage_def)
  have c: "map wtext (collectWords titledPage) = [''ab'', ''cd'']"
    unfolding titledPage_collected by (simp add: collectedWord_def boxed_def)
  have n: "\<not> includesSpace (''Title'' @ [newline] @ ''abcd'')" "\<not> includesSpace ''abcd''"
    by (simp_all add: includesSpace_def)
  have p: "pageTextWithSpacing titledPage = Some (Inr ''abcd'')"
    unfolding pageTextWithSpacing_def titledPage_first_pass titledPage_second_pass
    using n s by (simp add: abcd_third_pass)
  from w s c p titledPage_first_pass titledPage_second_pass show ?thesis
    by (simp only: simp_thms)
qed


text \<open>
  The rest of the escalation on examples. Two words that come right to left: the first pass
  joins them without a space, the second pass puts them in order and, 10 pixels apart,
  separates them by the space of the classifier.
\<close>

lemma reversedWideLine_first_pass:
  "processLinesWithIntelligentSpacing reversedWideLine = Inr ''WorldHello''"
  by code_simp

lemma reversedWideLine_verdicts:
  "verdictOf compareByPosition (collectedWord (boxed ''World'' [60, 0, 110, 0, 110, 20, 60, 20]))
     (collectedWord (boxed ''World'' [60, 0, 110, 0, 110, 20, 60, 20])) = Some Same"
  "verdictOf compareByPosition (collectedWord (boxed ''World'' [60, 0, 110, 0, 110, 20, 60, 20]))
     (collectedWord (boxed ''Hello'' [0, 0, 50, 0, 50, 20, 0, 20])) = Some After"
  "verdictOf compareByPosition (collectedWord (boxed ''Hello'' [0, 0, 50, 0, 50, 20, 0, 20]))
     (collectedWord (boxed ''World'' [60, 0, 110, 0, 110, 20, 60, 20])) = Some Before"
  "verdictOf compareByPosition (collectedWord (boxed ''Hello'' [0, 0, 50, 0, 50, 20, 0, 20]))
     (collectedWord (boxed ''Hello'' [0, 0, 50, 0, 50, 20, 0, 20])) = Some Same"
  by code_simp+

lemma reversedWideLine_collected:
  "collectWords reversedWideLine =
     [collectedWord (boxed ''World'' [60, 0, 110, 0, 110, 20, 60, 20]),
      collectedWord (boxed ''Hello'' [0, 0, 50, 0, 50, 20, 0, 20])]"
  by (simp add: collectWords_def reversedWideLine_def hasBox_def boxed_def finiteBox_def)

lemma reversedWideLine_sorted:
  "arraySort compareByPosition (collectWords reversedWideLine) =
     Some [collectedWord (boxed ''Hello'' [0, 0, 50, 0, 50, 20, 0, 20]),
           collectedWord (boxed ''World'' [60, 0, 110, 0, 110, 20, 60, 20])]"
  unfolding reversedWideLine_collected
  by (simp add: arraySort_def consistentComparator_def reversedWideLine_verdicts)

lemma reversedWideLine_joined:
  "joinWithSpacing [collectedWord (boxed ''Hello'' [0, 0, 50, 0, 50, 20, 0, 20]),
                    collectedWord (boxed ''World'' [60, 0, 110, 0, 110, 20, 60, 20])]
     = ''Hello World''"
  by code_simp

lemma reversedWideLine_text:
  "pageTextWithSpacing reversedWideLine = Some (Inr ''Hello World'')"
proof -
  have s: "someLineHasSeveralWords reversedWideLine"
    by (simp add: someLineHasSeveralWords_def reversedWideLine_def)
  have n: "\<not> includesSpace ''WorldHello''" "includesSpace ''Hello World''"
    by (simp_all add: includesSpace_def)
  have f: "applyForcedSpacingToCompactText reversedWideLine = Some ''Hello World''"
    unfolding applyForcedSpacingToCompactText_def reversedWideLine_sorted option.case
      reversedWideLine_joined
    by (rule refl)
  show ?thesis
    unfolding pageTextWithSpacing_def reversedWideLine_first_pass f
    using n s by simp
qed

text \<open>
  The same two words 3 pixels apart: the second pass finds no gap to fill either, and the
  third pass puts a space in front of the capital letter.
\<close>

lemma reversedLine_first_pass:
  "processLinesWithIntelligentSpacing reversedLine = Inr ''WorldHello''"
  by code_simp

lemma reversedLine_verdicts:
  "verdictOf compareByPosition (collectedWord (boxed ''World'' [53, 0, 103, 0, 103, 20, 53, 20]))
     (collectedWord (boxed ''World'' [53, 0, 103, 0, 103, 20, 53, 20])) = Some Same"
  "verdictOf compareByPosition (collectedWord (boxed ''World'' [53, 0, 103, 0, 103, 20, 53, 20]))
     (collectedWord (boxed ''Hello'' [0, 0, 50, 0, 50, 20, 0, 20])) = Some After"
  "verdictOf compareByPosition (collectedWord (boxed ''Hello'' [0, 0, 50, 0, 50, 20, 0, 20]))
     (collectedWord (boxed ''World'' [53, 0, 103, 0, 103, 20, 53, 20])) = Some Before"
  "verdictOf compareByPosition (collectedWord (boxed ''Hello'' [0, 0, 50, 0, 50, 20, 0, 20]))
     (collectedWord (boxed ''Hello'' [0, 0, 50, 0, 50, 20, 0, 20])) = Some Same"
  by code_simp+

lemma reversedLine_collected:
  "collectWords reversedLine =
     [collectedWord (boxed ''World'' [53, 0, 103, 0, 103, 20, 53, 20]),
      collectedWord (boxed ''Hello'' [0, 0, 50, 0, 50, 20, 0, 20])]"
  by (simp add: collectWords_def reversedLine_def hasBox_def boxed_def finiteBox_def)

lemma reversedLine_sorted:
  "arraySort compareByPosition (collectWords reversedLine) =
     Some [collectedWord (boxed ''Hello'' [0, 0, 50, 0, 50, 20, 0, 20]),
           collectedWord (boxed ''World'' [53, 0, 103, 0, 103, 20, 53, 20])]"
  unfolding reversedLine_collected
  by (simp add: arraySort_def consistentComparator_def reversedLine_verdicts)

lemma reversedLine_joined:
  "joinWithSpacing [collectedWord (boxed ''Hello'' [0, 0, 50, 0, 50, 20, 0, 20]),
                    collectedWord (boxed ''World'' [53, 0, 103, 0, 103, 20, 53, 20])]
     = ''HelloWorld''"
  by code_simp

lemma HelloWorld_third_pass: "addBasicSpacingToText ''HelloWorld'' = ''Hello World''"
  by code_simp

lemma reversedLine_text:
  "pageTextWithSpacing reversedLine = Some (Inr ''Hello World'')"
proof -
  have s: "someLineHasSeveralWords reversedLine"
    by (simp add: someLineHasSeveralWords_def reversedLine_def)
  have n: "\<not> includesSpace ''WorldHello''" "\<not> includesSpace ''HelloWorld''"
    by (simp_all add: includesSpace_def)
  have f: "applyForcedSpacingToCompactText reversedLine = Some ''HelloWorld''"
    unfolding applyForcedSpacingToCompactText_def reversedLine_sorted option.case
      reversedLine_joined
    by (rule refl)
  show ?thesis
    unfolding pageTextWithSpacing_def reversedLine_first_pass f
    using n s by (simp add: HelloWorld_third_pass)
qed

text \<open>
  On a rising line the comparator is not consistent: it puts ``Hello'' before ``World'' and
  ``World'' before ``Again'' by their left edges, and ``Again'' before ``Hello'' by their
  tops. The language does not fix the order of the second pass, and the model gives none.
\<close>

lemma slantedLine_verdicts:
  "verdictOf compareByPosition (collectedWord (boxed ''Hello'' [0, 20, 50, 20, 50, 40, 0, 40]))
     (collectedWord (boxed ''World'' [53, 12, 103, 12, 103, 32, 53, 32])) = Some Before"
  "verdictOf compareByPosition (collectedWord (boxed ''World'' [53, 12, 103, 12, 103, 32, 53, 32]))
     (collectedWord (boxed ''Again'' [106, 4, 156, 4, 156, 24, 106, 24])) = Some Before"
  "verdictOf compareByPosition (collectedWord (boxed ''Hello'' [0, 20, 50, 20, 50, 40, 0, 40]))
     (collectedWord (boxed ''Again'' [106, 4, 156, 4, 156, 24, 106, 24])) = Some After"
  by code_simp+

lemma slantedLine_collected:
  "collectWords slantedLine =
     [collectedWord (boxed ''Hello'' [0, 20, 50, 20, 50, 40, 0, 40]),
      collectedWord (boxed ''World'' [53, 12, 103, 12, 103, 32, 53, 32]),
      collectedWord (boxed ''Again'' [106, 4, 156, 4, 156, 24, 106, 24])]"
  by (simp add: collectWords_def slantedLine_def hasBox_def boxed_def finiteBox_def)

lemma slantedLine_order_unspecified:
  "arraySort compareByPosition (collectWords slantedLine) = None"
  unfolding slantedLine_collected
  by (simp add: arraySort_def consistentComparator_def slantedLine_verdicts)

section \<open>Properties of the overlay\<close>


lemma drawAll_length: "drawAll draw jobs = Some (Inr ds) \<Longrightarrow> length ds = length jobs"
  by (induction jobs arbitrary: ds) (auto split: option.splits sum.splits)










lemma twoWordPage_overlay:
  "createContinuousSearchablePdfFromPDF (\<lambda>t. True) (Fin 10) [(500, 500)] [twoWordPage] =
     Some (Overlay [\<lparr>drawnText = ''Hello      World'', drawnX = Fin 50, drawnY = Fin 440\<rparr>])"
  by code_simp



text \<open>
  A box of four numbers has no entries 4 to 7: the extents are \<open>NaN\<close>, \<open>drawText\<close> refuses
  the coordinates, and the fallback document is written. One such line is enough to
  abandon the texts of every other line, also of the lines drawn before it.
\<close>

lemma short_box_falls_back:
  "createContinuousSearchablePdfFromPDF (\<lambda>t. True) (Fin 10) [(500, 500)] [shortBoxPage] =
     Some FallbackDocument"
  by code_simp

lemma one_bad_line_abandons_overlay:
  "createContinuousSearchablePdfFromPDF (\<lambda>t. True) (Fin 10) [(500, 500), (500, 500)]
     [sourcePage, shortBoxPage] = Some FallbackDocument"
  by code_simp

section \<open>Properties of the text normalizer\<close>

lemma isSpace_space: "isSpace (CHR '' '')"
  by (simp add: isSpace_def)

lemma singleSpaced_Cons:
  "singleSpaced (a # u) = ((u = [] \<or> \<not> (a = CHR '' '' \<and> hd u = CHR '' '')) \<and> singleSpaced u)"
  by (cases u) auto

lemma singleSpaced_snoc:
  "singleSpaced (u @ [a]) = (singleSpaced u \<and> (u = [] \<or> \<not> (last u = CHR '' '' \<and> a = CHR '' '')))"
proof (induction u)
  case Nil
  then show ?case by simp
next
  case (Cons b u)
  then show ?case by (cases u) auto
qed

lemma singleSpaced_rev: "singleSpaced (rev u) = singleSpaced u"
proof (induction u)
  case Nil
  then show ?case by simp
next
  case (Cons a u)
  then show ?case
    by (auto simp add: singleSpaced_snoc singleSpaced_Cons last_rev)
qed

lemma singleSpaced_dropWhile: "singleSpaced u \<Longrightarrow> singleSpaced (dropWhile p u)"
  by (induction u) (auto simp add: singleSpaced_Cons)

lemma collapseRuns_set: "set (collapseRuns p s) \<subseteq> insert (CHR '' '') (set s)"
proof (induction p s rule: collapseRuns.induct)
  case (1 p)
  then show ?case by simp
next
  case (2 p c cs)
  show ?case
  proof (cases "p c")
    case True
    with 2(1) have "set (collapseRuns p (dropWhile p cs)) \<subseteq> insert (CHR '' '') (set (dropWhile p cs))"
      by simp
    moreover have "set (dropWhile p cs) \<subseteq> set cs" by (auto dest: set_dropWhileD)
    ultimately show ?thesis using True by auto
  next
    case False
    with 2(2) show ?thesis by auto
  qed
qed

lemma collapseRuns_no_class:
  "\<forall>c \<in> set (collapseRuns p s). p c \<longrightarrow> c = CHR '' ''"
proof (induction p s rule: collapseRuns.induct)
  case (1 p)
  then show ?case by simp
next
  case (2 p c cs)
  then show ?case by (cases "p c") auto
qed

lemma collapseRuns_hd:
  "s \<noteq> [] \<Longrightarrow> \<not> p (hd s) \<Longrightarrow> collapseRuns p s \<noteq> [] \<and> hd (collapseRuns p s) = hd s"
  by (cases s) auto

lemma collapseRuns_singleSpaced:
  "p (CHR '' '') \<Longrightarrow> singleSpaced (collapseRuns p s)"
proof (induction p s rule: collapseRuns.induct)
  case (1 p)
  then show ?case by simp
next
  case (2 p c cs)
  show ?case
  proof (cases "p c")
    case True
    let ?d = "dropWhile p cs"
    from 2(1) [OF True 2(3)] have s: "singleSpaced (collapseRuns p ?d)" .
    have "collapseRuns p ?d = [] \<or> hd (collapseRuns p ?d) \<noteq> CHR '' ''"
    proof (cases "?d = []")
      case True
      then show ?thesis by (simp only: collapseRuns.simps(1) simp_thms)
    next
      case False
      then have "\<not> p (hd ?d)" by (rule hd_dropWhile)
      with collapseRuns_hd [of ?d p, OF False this] 2(3) show ?thesis by auto
    qed
    with s True show ?thesis by (auto simp add: singleSpaced_Cons)
  next
    case False
    with 2(3) have "c \<noteq> CHR '' ''" by auto
    with 2(2) [OF False 2(3)] False show ?thesis by (simp add: singleSpaced_Cons)
  qed
qed

lemma trim_set: "set (trim s) \<subseteq> set s"
  by (auto simp add: trim_def dest!: set_dropWhileD)

lemma trim_singleSpaced: "singleSpaced s \<Longrightarrow> singleSpaced (trim s)"
  by (simp add: trim_def singleSpaced_rev singleSpaced_dropWhile)

lemma trim_ends:
  "trim s \<noteq> [] \<Longrightarrow> \<not> isSpace (hd (trim s)) \<and> \<not> isSpace (last (trim s))"
proof -
  assume ne: "trim s \<noteq> []"
  let ?v = "dropWhile isSpace s"
  let ?w = "dropWhile isSpace (rev ?v)"
  from ne have w: "?w \<noteq> []" by (simp add: trim_def)
  then have hw: "\<not> isSpace (hd ?w)" by (rule hd_dropWhile)
  have v: "?v \<noteq> []"
  proof
    assume "?v = []"
    then have "?w = []" by (simp only: rev.simps dropWhile.simps)
    with w show False ..
  qed
  then have hv: "\<not> isSpace (hd ?v)" by (rule hd_dropWhile)
  from w obtain x where x: "x \<in> set (rev ?v)" "\<not> isSpace x"
    unfolding dropWhile_eq_Nil_conv by blast
  from dropWhile_last [of x "rev ?v" isSpace, OF x] have "last ?w = last (rev ?v)" .
  with v have "last ?w = hd ?v" by (simp add: last_rev)
  with hv hw show ?thesis by (simp add: trim_def hd_rev last_rev)
qed

lemma normalizer_output_normal: "whitespaceNormal (trim (collapseRuns isSpace s))"
proof -
  let ?u = "collapseRuns isSpace s"
  have a: "\<forall>c \<in> set (trim ?u). isSpace c \<longrightarrow> c = CHR '' ''"
    using collapseRuns_no_class [of isSpace s] trim_set [of ?u] by auto
  have b: "singleSpaced (trim ?u)"
    by (rule trim_singleSpaced) (rule collapseRuns_singleSpaced [of isSpace s, OF isSpace_space])
  have c: "trim ?u \<noteq> [] \<longrightarrow> hd (trim ?u) \<noteq> CHR '' '' \<and> last (trim ?u) \<noteq> CHR '' ''"
    using trim_ends [of ?u] isSpace_space by auto
  from a b c show ?thesis by (simp add: whitespaceNormal_def list_all_iff)
qed

lemma collapseRuns_id:
  "\<forall>c \<in> set s. p c \<longrightarrow> c = CHR '' '' \<Longrightarrow> singleSpaced s \<Longrightarrow> collapseRuns p s = s"
proof (induction s)
  case Nil
  then show ?case by simp
next
  case (Cons c cs)
  from Cons.prems have ih: "collapseRuns p cs = cs" by (simp add: Cons.IH singleSpaced_Cons)
  show ?case
  proof (cases "p c")
    case True
    with Cons.prems(1) have c: "c = CHR '' ''" by simp
    have "dropWhile p cs = cs"
    proof (cases cs)
      case Nil
      then show ?thesis by simp
    next
      case (Cons d ds)
      with Cons.prems c have "d \<noteq> CHR '' ''" by (simp add: singleSpaced_Cons)
      with Cons Cons.prems(1) have "\<not> p d" by auto
      with Cons show ?thesis by simp
    qed
    with True c ih show ?thesis by simp
  next
    case False
    with ih show ?thesis by simp
  qed
qed

lemma capNewlines_id: "newline \<notin> set s \<Longrightarrow> capNewlines s = s"
  by (induction s) auto

lemma stripSpacesBeforeNewline_id: "newline \<notin> set s \<Longrightarrow> stripSpacesBeforeNewline s = s"
proof (induction s)
  case Nil
  then show ?case by simp
next
  case (Cons c cs)
  then have ih: "stripSpacesBeforeNewline cs = cs" by simp
  have "\<And>d ds. dropWhile (\<lambda>x. x = CHR '' '') cs = d # ds \<Longrightarrow> d \<noteq> newline"
  proof
    fix d ds assume e: "dropWhile (\<lambda>x. x = CHR '' '') cs = d # ds" and "d = newline"
    then have "newline \<in> set (dropWhile (\<lambda>x. x = CHR '' '') cs)" by simp
    then have "newline \<in> set cs" by (rule set_dropWhileD)
    with Cons.prems show False by simp
  qed
  with ih show ?case by (auto split: list.splits)
qed

lemma stripSpacesAfterNewline_id: "newline \<notin> set s \<Longrightarrow> stripSpacesAfterNewline s = s"
  by (induction s) auto

lemma trim_id: "s = [] \<or> (\<not> isSpace (hd s) \<and> \<not> isSpace (last s)) \<Longrightarrow> trim s = s"
proof (cases "s = []")
  case True
  then show ?thesis by (simp add: trim_def)
next
  case False
  assume "s = [] \<or> (\<not> isSpace (hd s) \<and> \<not> isSpace (last s))"
  with False have h: "\<not> isSpace (hd s)" and l: "\<not> isSpace (last s)" by simp_all
  from False h have 1: "dropWhile isSpace s = s" by (simp add: dropWhile_eq_self_iff)
  from False l have 2: "dropWhile isSpace (rev s) = rev s"
    by (simp add: dropWhile_eq_self_iff hd_rev)
  show ?thesis by (simp add: trim_def 1 2)
qed

lemma whitespaceNormal_no_other_space:
  "whitespaceNormal y \<Longrightarrow> c \<in> set y \<Longrightarrow> isSpace c \<Longrightarrow> c = CHR '' ''"
  by (simp add: whitespaceNormal_def list_all_iff)

lemma normalizer_fixed:
  assumes "whitespaceNormal y" "insertBoundaries y = y"
  shows "cleanAndFormatText y = y"
proof (cases "y = []")
  case True
  then show ?thesis by (simp add: cleanAndFormatText_def)
next
  case False
  from assms(1) have sp: "\<forall>c \<in> set y. isSpace c \<longrightarrow> c = CHR '' ''"
    and ss: "singleSpaced y" and ends: "hd y \<noteq> CHR '' '' \<and> last y \<noteq> CHR '' ''"
    using False by (simp_all add: whitespaceNormal_def list_all_iff)
  have tb: "\<forall>c \<in> set y. (c = CHR '' '' \<or> c = tab) \<longrightarrow> c = CHR '' ''"
    using sp by (auto simp add: isSpace_def)
  have nl: "newline \<notin> set y" using sp by (auto simp add: isSpace_def)
  have 1: "collapseRuns (\<lambda>c. c = CHR '' '' \<or> c = tab) y = y" by (rule collapseRuns_id [OF tb ss])
  have 5: "collapseRuns isSpace y = y" by (rule collapseRuns_id [OF sp ss])
  from False have "hd y \<in> set y" "last y \<in> set y" by simp_all
  with sp ends have "\<not> isSpace (hd y) \<and> \<not> isSpace (last y)" by auto
  then have 6: "trim y = y" by (simp add: trim_id)
  show ?thesis
    using False
    by (simp add: cleanAndFormatText_def Let_def 1 capNewlines_id [OF nl]
        stripSpacesBeforeNewline_id [OF nl] stripSpacesAfterNewline_id [OF nl] assms(2) 5 6)
qed

lemma cleanAndFormatText_normal: "whitespaceNormal (cleanAndFormatText x)"
proof (cases "x = []")
  case True
  then show ?thesis by (simp add: cleanAndFormatText_def whitespaceNormal_def)
next
  case False
  then show ?thesis
    by (simp add: cleanAndFormatText_def Let_def normalizer_output_normal)
qed



lemma spaceBetween_id_left: "\<forall>c \<in> set s. \<not> p c \<Longrightarrow> spaceBetween p q s = s"
  by (induction p q s rule: spaceBetween.induct) auto

lemma spaceBetween_id_right: "\<forall>c \<in> set s. \<not> q c \<Longrightarrow> spaceBetween p q s = s"
  by (induction p q s rule: spaceBetween.induct) auto

lemma spaceBeforeCapitalised_id: "\<forall>c \<in> set s. \<not> isLower c \<Longrightarrow> spaceBeforeCapitalised s = s"
  by (induction s rule: spaceBeforeCapitalised.induct) auto

lemma isLower_lowerCase: "isLower (lowerCase c) \<Longrightarrow> isLetter c"
  by (auto simp add: lowerCase_def isLetter_def split: if_splits)

lemma spaceAroundWord_id:
  assumes "w \<noteq> []" "isLower (hd w)"
  shows "\<forall>c \<in> set s. \<not> isLetter c \<Longrightarrow> spaceAroundWord p w s = s"
proof (induction s)
  case Nil
  then show ?case by simp
next
  case (Cons a cs)
  have "map lowerCase (take (length w) cs) \<noteq> w"
  proof
    assume m: "map lowerCase (take (length w) cs) = w"
    with assms(1) have ne: "cs \<noteq> []" by auto
    from m assms(1) ne have "hd w = lowerCase (hd cs)"
      by (cases cs; cases w) auto
    with assms(2) have "isLetter (hd cs)" by (simp add: isLower_lowerCase)
    with ne Cons.prems show False by (cases cs) auto
  qed
  with Cons show ?case by simp
qed

lemma fold_spaceAroundWord_id:
  "\<forall>w \<in> set ws. w \<noteq> [] \<and> isLower (hd w) \<Longrightarrow> \<forall>c \<in> set s. \<not> isLetter c
   \<Longrightarrow> fold (spaceAroundWord p) ws s = s"
  by (induction ws) (simp_all add: spaceAroundWord_id)

lemma commonWords_lower: "\<forall>w \<in> set commonWords. w \<noteq> [] \<and> isLower (hd w)"
  by (simp add: commonWords_def isLower_def code_def)

lemma insertBoundaries_id:
  assumes "\<forall>c \<in> set s. \<not> isLetter c"
  shows "insertBoundaries s = s"
proof -
  from assms have l: "\<forall>c \<in> set s. \<not> isLower c" and u: "\<forall>c \<in> set s. \<not> isUpper c"
    by (simp_all add: isLetter_def)
  show ?thesis
    by (simp add: insertBoundaries_def Let_def spaceBetween_id_left [OF l]
        spaceBetween_id_left [OF assms] spaceBetween_id_right [OF assms]
        spaceBetween_id_right [OF u] spaceBeforeCapitalised_id [OF l]
        fold_spaceAroundWord_id [OF commonWords_lower assms])
qed

lemma not_letter_space: "\<not> isLetter (CHR '' '')" and not_letter_newline: "\<not> isLetter newline"
  by (simp_all add: isLetter_def isLower_def isUpper_def code_def)

lemma capNewlines_set: "set (capNewlines s) \<subseteq> set s"
proof (induction s rule: capNewlines.induct)
  case 1
  then show ?case by simp
next
  case (2 c cs)
  show ?case
  proof (cases "c = newline \<and> 4 \<le> length (takeWhile (\<lambda>x. x = newline) (c # cs))")
    case True
    from 2(1) [OF True] have "set (capNewlines (dropWhile (\<lambda>x. x = newline) cs))
                      \<subseteq> set (dropWhile (\<lambda>x. x = newline) cs)" .
    moreover have "set (dropWhile (\<lambda>x. x = newline) cs) \<subseteq> set cs" by (auto dest: set_dropWhileD)
    ultimately show ?thesis using True by auto
  next
    case False
    with 2(2) show ?thesis by auto
  qed
qed

lemma stripSpacesBeforeNewline_set: "set (stripSpacesBeforeNewline s) \<subseteq> set s"
proof (induction "length s" arbitrary: s rule: less_induct)
  case less
  show ?case
  proof (cases s)
    case Nil
    then show ?thesis by simp
  next
    case (Cons c cs)
    from less [of cs] Cons have ihcs: "set (stripSpacesBeforeNewline cs) \<subseteq> set cs" by simp
    show ?thesis
    proof (cases "dropWhile (\<lambda>x. x = CHR '' '') cs")
      case Nil
      have "stripSpacesBeforeNewline (c # cs) = c # stripSpacesBeforeNewline cs"
        by (simp only: stripSpacesBeforeNewline.simps Nil list.case if_cancel)
      with ihcs Cons show ?thesis by auto
    next
      case dd: (Cons d ds)
      have sub: "set (d # ds) \<subseteq> set cs"
        using set_dropWhileD [of _ "\<lambda>x. x = CHR '' ''" cs] dd by auto
      have "length (d # ds) \<le> length cs"
        using length_dropWhile_le [of "\<lambda>x. x = CHR '' ''" cs] dd by simp
      with less [of ds] Cons have ihds: "set (stripSpacesBeforeNewline ds) \<subseteq> set ds" by simp
      show ?thesis
      proof (cases "c = CHR '' '' \<and> d = newline")
        case True
        with dd have "stripSpacesBeforeNewline (c # cs) = newline # stripSpacesBeforeNewline ds"
          by simp
        with ihds sub True Cons show ?thesis by auto
      next
        case False
        with dd have "stripSpacesBeforeNewline (c # cs) = c # stripSpacesBeforeNewline cs"
          by auto
        with ihcs Cons show ?thesis by auto
      qed
    qed
  qed
qed

lemma stripSpacesAfterNewline_set: "set (stripSpacesAfterNewline s) \<subseteq> set s"
proof (induction s rule: stripSpacesAfterNewline.induct)
  case 1
  then show ?case by simp
next
  case (2 c cs)
  show ?case
  proof (cases "c = newline \<and> (case cs of d # ds \<Rightarrow> d = CHR '' '' | [] \<Rightarrow> False)")
    case True
    from 2(1) [OF True] have "set (stripSpacesAfterNewline (dropWhile (\<lambda>x. x = CHR '' '') cs))
                      \<subseteq> set (dropWhile (\<lambda>x. x = CHR '' '') cs)" .
    moreover have "set (dropWhile (\<lambda>x. x = CHR '' '') cs) \<subseteq> set cs"
      by (auto dest: set_dropWhileD)
    ultimately show ?thesis using True by auto
  next
    case False
    with 2(2) show ?thesis by auto
  qed
qed

lemma cleanAndFormatText_no_letters:
  assumes "\<forall>c \<in> set x. \<not> isLetter c"
  shows "\<forall>c \<in> set (cleanAndFormatText x). \<not> isLetter c"
proof (cases "x = []")
  case True
  then show ?thesis by (simp add: cleanAndFormatText_def)
next
  case False
  let ?t1 = "collapseRuns (\<lambda>c. c = CHR '' '' \<or> c = tab) x"
  let ?t4 = "stripSpacesAfterNewline (stripSpacesBeforeNewline (capNewlines ?t1))"
  have "set ?t4 \<subseteq> set ?t1"
    using stripSpacesAfterNewline_set stripSpacesBeforeNewline_set capNewlines_set
    by (meson subset_trans)
  with collapseRuns_set [of "\<lambda>c. c = CHR '' '' \<or> c = tab" x]
  have "set ?t4 \<subseteq> insert (CHR '' '') (set x)" by blast
  with assms not_letter_space have t4: "\<forall>c \<in> set ?t4. \<not> isLetter c" by auto
  then have ib: "insertBoundaries ?t4 = ?t4" by (rule insertBoundaries_id)
  have "set (trim (collapseRuns isSpace ?t4)) \<subseteq> insert (CHR '' '') (set ?t4)"
    using trim_set [of "collapseRuns isSpace ?t4"] collapseRuns_set [of isSpace ?t4] by blast
  with t4 not_letter_space have "\<forall>c \<in> set (trim (collapseRuns isSpace ?t4)). \<not> isLetter c"
    by auto
  with False ib show ?thesis by (simp add: cleanAndFormatText_def Let_def)
qed

text \<open>
  C2, amended. For every string the output of the normalizer has no white space but single
  spaces between other characters, and none at either end. Normalizing the output again
  leaves it as it is whenever none of the boundary substitutions matches in it, and so for
  every string without ASCII letters.
\<close>

theorem normalizer_fixed_points:
  "whitespaceNormal (cleanAndFormatText x)
   \<and> (insertBoundaries (cleanAndFormatText x) = cleanAndFormatText x
        \<longrightarrow> cleanAndFormatText (cleanAndFormatText x) = cleanAndFormatText x)
   \<and> (list_all (\<lambda>c. \<not> isLetter c) x
        \<longrightarrow> cleanAndFormatText (cleanAndFormatText x) = cleanAndFormatText x)"
proof (intro conjI impI)
  show n: "whitespaceNormal (cleanAndFormatText x)" by (rule cleanAndFormatText_normal)
  {
    assume "insertBoundaries (cleanAndFormatText x) = cleanAndFormatText x"
    with n show "cleanAndFormatText (cleanAndFormatText x) = cleanAndFormatText x"
      by (rule normalizer_fixed)
  }
  {
    assume "list_all (\<lambda>c. \<not> isLetter c) x"
    then have "\<forall>c \<in> set x. \<not> isLetter c" by (simp add: list_all_iff)
    then have "\<forall>c \<in> set (cleanAndFormatText x). \<not> isLetter c"
      by (rule cleanAndFormatText_no_letters)
    then have "insertBoundaries (cleanAndFormatText x) = cleanAndFormatText x"
      by (rule insertBoundaries_id)
    with n show "cleanAndFormatText (cleanAndFormatText x) = cleanAndFormatText x"
      by (rule normalizer_fixed)
  }
qed

lemma atobtoc_once: "cleanAndFormatText ''atobtoc'' = ''a to btoc''"
  by code_simp

lemma atobtoc_twice: "cleanAndFormatText ''a to btoc'' = ''a to b to c''"
  by code_simp

text \<open>
  C2 as stated fails: a match of a word substitution consumes the character behind the word,
  so a second word that starts at that character is missed in the same pass and found in the
  next: ``atobtoc'' becomes ``a to btoc'', and that becomes ``a to b to c''.
\<close>

theorem normalizer_not_idempotent_counterexample:
  "cleanAndFormatText (cleanAndFormatText ''atobtoc'') \<noteq> cleanAndFormatText ''atobtoc''"
  by (simp add: atobtoc_once atobtoc_twice)

lemma HelloWorld_clean: "cleanAndFormatText ''Hello   World'' = ''Hello World''"
  by code_simp

lemma HelloWorld_boundaries: "insertBoundaries ''Hello World'' = ''Hello World''"
  by code_simp

lemma figures_clean:
  "cleanAndFormatText ('' 12 '' @ [tab] @ '' 34'' @ [newline, newline, newline, newline, newline] @ ''.5 '')
     = ''12 34 .5''"
  by code_simp

text \<open>
  Witness for C2. A text that the first pass leaves without a further match, and a text without letters.
\<close>

theorem normalizer_fixed_points_witness:
  "insertBoundaries (cleanAndFormatText ''Hello   World'') = cleanAndFormatText ''Hello   World''
   \<and> cleanAndFormatText (cleanAndFormatText ''Hello   World'') = ''Hello World''
   \<and> list_all (\<lambda>c. \<not> isLetter c)
        ('' 12 '' @ [tab] @ '' 34'' @ [newline, newline, newline, newline, newline] @ ''.5 '')
   \<and> cleanAndFormatText (cleanAndFormatText
        ('' 12 '' @ [tab] @ '' 34'' @ [newline, newline, newline, newline, newline] @ ''.5 ''))
       = ''12 34 .5''
   \<and> whitespaceNormal ''12 34 .5''"
proof -
  let ?x1 = "''Hello   World''"
  let ?x2 = "'' 12 '' @ [tab] @ '' 34'' @ [newline, newline, newline, newline, newline] @ ''.5 ''"
  have l: "list_all (\<lambda>c. \<not> isLetter c) ?x2"
    by (simp add: isLetter_def isLower_def isUpper_def code_def)
  have a: "insertBoundaries (cleanAndFormatText ?x1) = cleanAndFormatText ?x1"
    by (simp only: HelloWorld_clean HelloWorld_boundaries)
  from normalizer_fixed_points [of ?x1] a
  have b: "cleanAndFormatText (cleanAndFormatText ?x1) = cleanAndFormatText ?x1" by blast
  from normalizer_fixed_points [of ?x2] l
  have c: "cleanAndFormatText (cleanAndFormatText ?x2) = cleanAndFormatText ?x2" by blast
  from normalizer_fixed_points [of ?x2] have d: "whitespaceNormal (cleanAndFormatText ?x2)"
    by blast
  from b have b': "cleanAndFormatText (cleanAndFormatText ?x1) = ''Hello World''"
    by (simp only: HelloWorld_clean)
  from c have c': "cleanAndFormatText (cleanAndFormatText ?x2) = ''12 34 .5''"
    by (simp only: figures_clean)
  from d have d': "whitespaceNormal ''12 34 .5''" by (simp only: figures_clean)
  show ?thesis by (rule conjI a b' l c' d')+
qed

end
